theory Spec2Isabelle
  imports Complex_Main
begin

section \<open>Resource watchdog: data model\<close>

text \<open>
  The repository holds two near-duplicate scripts: the first (the plain notifier) and
  the second, \<^verbatim>\<open>abuse log script.js\<close> (notifier with timed escalation and kill).
  JavaScript numbers that arrive in JSON are finite; they are modelled as rationals.
  The only arithmetic the scripts apply to them is subtraction of clock readings and
  division by the powers of two \<open>1024\<close> and \<open>1024 ** 3\<close> and by \<open>1000\<close>, followed by
  comparisons. Division of a double by a power of two is exact (short of underflow), and
  a whole number of milliseconds divided by \<open>1000\<close> lands on the same side of the whole
  thresholds as the exact quotient, so the comparisons decide as they do on rationals.
  Clock readings are whole milliseconds.
\<close>

record limits =
  cpu :: rat
  memory :: rat
  disk :: rat

record resources =
  cpu_absolute :: rat
  memory_bytes :: rat
  disk_bytes :: rat

subsection \<open>The over-limit condition of \<^verbatim>\<open>getServerResources\<close>\<close>

definition memoryGB :: "resources \<Rightarrow> rat" where
  "memoryGB res = memory_bytes res / (1024 ^ 3)"

definition diskGB :: "resources \<Rightarrow> rat" where
  "diskGB res = disk_bytes res / (1024 ^ 3)"

definition cpuUsage :: "resources \<Rightarrow> rat" where
  "cpuUsage res = cpu_absolute res"

definition memoryLimitGB :: "limits \<Rightarrow> rat" where
  "memoryLimitGB lims = memory lims / 1024"

definition diskLimitGB :: "limits \<Rightarrow> rat" where
  "diskLimitGB lims = disk lims / 1024"

definition cpuLimit :: "limits \<Rightarrow> rat" where
  "cpuLimit lims = cpu lims"

text \<open>First script, the condition of the \<^verbatim>\<open>if\<close> on \<^verbatim>\<open>server.limits\<close>.\<close>

definition over_limit_first :: "limits \<Rightarrow> resources \<Rightarrow> bool" where
  "over_limit_first lims res \<longleftrightarrow>
     (cpuLimit lims > 0 \<and> cpuUsage res \<ge> cpuLimit lims) \<or>
     (memory lims > 0 \<and> memoryGB res \<ge> memoryLimitGB lims) \<or>
     (disk lims > 0 \<and> diskGB res \<ge> diskLimitGB lims)"

text \<open>Second script, the condition of the \<^verbatim>\<open>if\<close> on the \<^verbatim>\<open>limits\<close> argument.\<close>

definition over_limit :: "limits \<Rightarrow> resources \<Rightarrow> bool" where
  "over_limit lims res \<longleftrightarrow>
     (cpuLimit lims > 0 \<and> cpuUsage res \<ge> cpuLimit lims) \<or>
     (memory lims > 0 \<and> memoryGB res \<ge> memoryLimitGB lims) \<or>
     (disk lims > 0 \<and> diskGB res \<ge> diskLimitGB lims)"

section \<open>Overage tracker (second script)\<close>

text \<open>
  \<^verbatim>\<open>overLimitTracker\<close> maps an instance identifier to its record. A record is created
  as \<^verbatim>\<open>{ startTime: Date.now(), reported: false }\<close>; the field \<^verbatim>\<open>isOverLimit\<close> is absent
  until the next statement sets it.
\<close>

record overage =
  startTime :: int
  reported :: bool
  isOverLimit :: "bool option"

type_synonym tracker = "string \<rightharpoonup> overage"

text \<open>
  The external effects of one evaluation, in the order the script awaits them; each is
  identified by the instance it concerns. A failed delivery is logged and swallowed by
  \<^verbatim>\<open>notifyServerOverLimit\<close>, \<^verbatim>\<open>killServer\<close> and \<^verbatim>\<open>logToDiscord\<close>, so none of them changes
  the control flow of the caller.
\<close>

datatype effect = NotifyServerOverLimit string | KillServer string | LogToDiscord string

definition REPORT_THRESHOLD_SECONDS :: rat where
  "REPORT_THRESHOLD_SECONDS = 7200"

definition KILL_THRESHOLD_SECONDS :: rat where
  "KILL_THRESHOLD_SECONDS = 10800"

definition isSpecialNest :: "int \<Rightarrow> bool" where
  "isSpecialNest nest \<longleftrightarrow> nest = 1 \<or> nest = 6"

definition customKillThresholdSeconds :: "int \<Rightarrow> rat" where
  "customKillThresholdSeconds nest = (if isSpecialNest nest then 18000 else KILL_THRESHOLD_SECONDS)"

text \<open>
  The record the evaluation works on: the existing one, or the one created when the
  tracker has none (\<open>now\<close> is the reading of \<^verbatim>\<open>Date.now()\<close> at creation, in milliseconds).
\<close>

definition tracked :: "tracker \<Rightarrow> string \<Rightarrow> int \<Rightarrow> overage" where
  "tracked overLimitTracker serverUUID now =
     (case overLimitTracker serverUUID of
        None \<Rightarrow> \<lparr>startTime = now, reported = False, isOverLimit = None\<rparr>
      | Some r \<Rightarrow> r)"

definition elapsedTime :: "int \<Rightarrow> overage \<Rightarrow> rat" where
  "elapsedTime now r = of_int (now - startTime r) / 1000"

text \<open>
  \<^verbatim>\<open>getServerResources(serverUUID, limits, serverName, nest)\<close>, with the tracker passed
  in and returned. \<open>data\<close> is what \<^verbatim>\<open>fetchWithRetry\<close> resolved to (\<open>None\<close> for \<^verbatim>\<open>null\<close>),
  \<open>now_created\<close> and \<open>now_checked\<close> are the two readings of \<^verbatim>\<open>Date.now()\<close>, the first
  used only when a record is created. \<^verbatim>\<open>serverName\<close> only labels log lines and is left
  out. The body between the fetch and the first awaited effect runs without
  interruption; one call is taken as one step on the tracker. In the over-limit branch
  \<open>r0\<close> is the record after the \<^verbatim>\<open>if (!overLimitTracker[serverUUID])\<close> creation, \<open>r1\<close>
  after \<^verbatim>\<open>isOverLimit = true\<close>, \<open>r2\<close> after the report block; the kill block deletes
  the entry, otherwise the entry holds \<open>r2\<close>.
\<close>

definition getServerResources ::
  "tracker \<Rightarrow> string \<Rightarrow> limits \<Rightarrow> int \<Rightarrow> resources option \<Rightarrow> int \<Rightarrow> int \<Rightarrow> tracker \<times> effect list" where
  "getServerResources overLimitTracker serverUUID limits nest data now_created now_checked =
     (case data of
        None \<Rightarrow> (overLimitTracker, [])
      | Some res \<Rightarrow>
          if over_limit limits res then
            (let r0 = tracked overLimitTracker serverUUID now_created;
                 r1 = r0\<lparr>isOverLimit := Some True\<rparr>;
                 elapsed = elapsedTime now_checked r1;
                 notify = (elapsed \<ge> REPORT_THRESHOLD_SECONDS \<and> \<not> reported r1);
                 r2 = (if notify then r1\<lparr>reported := True\<rparr> else r1);
                 kill = (elapsed \<ge> customKillThresholdSeconds nest)
             in ((if kill then overLimitTracker(serverUUID := None)
                  else overLimitTracker(serverUUID \<mapsto> r2)),
                 (if notify then [NotifyServerOverLimit serverUUID] else []) @
                 (if kill then [KillServer serverUUID, LogToDiscord serverUUID] else [])))
          else if overLimitTracker serverUUID \<noteq> None
            then (overLimitTracker(serverUUID := None), [])
            else (overLimitTracker, []))"

text \<open>
  What one poll cycle feeds to the evaluation of an instance: its limits and category as
  listed in that cycle, the fetched snapshot, and the two clock readings.
\<close>

type_synonym reading = "limits \<times> int \<times> resources option \<times> int \<times> int"

text \<open>
  The effects of the successive evaluations of one instance, cycle after cycle, followed
  for as long as its record stays in the tracker: the record's lifetime is the episode.
\<close>

fun episode :: "tracker \<Rightarrow> string \<Rightarrow> reading list \<Rightarrow> effect list" where
  "episode overLimitTracker serverUUID [] = []"
| "episode overLimitTracker serverUUID ((limits, nest, data, now_created, now_checked) # rest) =
     (let (tracker', effects) =
            getServerResources overLimitTracker serverUUID limits nest data now_created now_checked
      in effects @ (if tracker' serverUUID = None then [] else episode tracker' serverUUID rest))"

section \<open>Fetching with retry (second script)\<close>

text \<open>
  The outcome of one call of \<^verbatim>\<open>fetch\<close>: a response with its status and the result of
  \<^verbatim>\<open>response.json()\<close> (\<open>None\<close> when parsing rejects), or a rejected promise.
  \<^verbatim>\<open>response.ok\<close> is node-fetch's test that the status lies in 200..299.
\<close>

datatype 'a response = Response nat "'a option" | NetworkError

datatype io = FetchCall | Sleep nat

definition RETRY_LIMIT :: int where
  "RETRY_LIMIT = 3"

definition DELAY_BETWEEN_CHECKS_MS :: nat where
  "DELAY_BETWEEN_CHECKS_MS = 10000"

text \<open>
  \<^verbatim>\<open>fetchWithRetry(url, headers, retries)\<close>. \<open>fetch k\<close> is the outcome of the \<open>k\<close>-th call of
  \<^verbatim>\<open>fetch(url, { headers })\<close>; the result pairs the value the promise resolves to
  (\<open>None\<close> for \<^verbatim>\<open>null\<close>) with the calls and sleeps performed, in order. Every rejection
  inside the body is caught by the \<^verbatim>\<open>try\<close>, so the promise never rejects.
\<close>

function fetchWithRetry :: "(nat \<Rightarrow> 'a response) \<Rightarrow> nat \<Rightarrow> int \<Rightarrow> 'a option \<times> io list" where
  "fetchWithRetry fetch k retries =
     (case fetch k of
        NetworkError \<Rightarrow> (None, [FetchCall])
      | Response status body \<Rightarrow>
          if 200 \<le> status \<and> status < 300 then (body, [FetchCall])
          else if status = 504 \<and> retries > 0 then
            (let (result, trace) = fetchWithRetry fetch (Suc k) (retries - 1)
             in (result, FetchCall # Sleep DELAY_BETWEEN_CHECKS_MS # trace))
          else (None, [FetchCall]))"
  by pat_completeness auto
termination
  by (relation "measure (\<lambda>(fetch, k, retries). nat retries)") auto

declare fetchWithRetry.simps [simp del]

section \<open>Instance directory\<close>

text \<open>The object the first script pushes for a listed entry: \<^verbatim>\<open>{ uuid, limits, name }\<close>.\<close>

record server_first =
  uuid :: string
  limits :: limits
  name :: string

text \<open>
  \<^verbatim>\<open>server.attributes\<close> of an entry of the listing, and the object the second script
  pushes for it: \<^verbatim>\<open>{ uuid, limits, name, nest }\<close>.
\<close>

record attributes =
  uuid :: string
  limits :: limits
  name :: string
  nest_id :: int

record server =
  uuid :: string
  limits :: limits
  name :: string
  nest :: int

text \<open>
  One page of the listing, in both scripts: \<^verbatim>\<open>data.data\<close> (the \<^verbatim>\<open>attributes\<close> of each entry) and
  \<^verbatim>\<open>data.meta.pagination.links.next\<close>.
\<close>

record page =
  page_data :: "attributes list"
  links_next :: "string option"

subsection \<open>The listing of the second script\<close>

definition PANEL_URL :: string where
  "PANEL_URL = []"

text \<open>The object pushed for a listed entry: \<^verbatim>\<open>{ uuid, limits, name, nest }\<close>.\<close>

definition listed :: "attributes \<Rightarrow> server" where
  "listed a = \<lparr>uuid = attributes.uuid a, limits = attributes.limits a,
                name = attributes.name a, nest = nest_id a\<rparr>"

text \<open>The \<^verbatim>\<open>for (const server of data.data)\<close> loop, pushing onto \<^verbatim>\<open>serverUUIDs\<close>.\<close>

fun push_servers :: "server list \<Rightarrow> attributes list \<Rightarrow> server list" where
  "push_servers serverUUIDs [] = serverUUIDs"
| "push_servers serverUUIDs (a # as) =
     (if nest_id a = 1 \<or> nest_id a = 6 then push_servers serverUUIDs as
      else push_servers (serverUUIDs @ [listed a]) as)"

text \<open>\<^verbatim>\<open>data.meta.pagination.links.next || null\<close>: an empty string is falsy.\<close>

definition next_or_null :: "page \<Rightarrow> string option" where
  "next_or_null p = (case links_next p of None \<Rightarrow> None | Some s \<Rightarrow> if s = [] then None else Some s)"

text \<open>
  The \<^verbatim>\<open>while (nextPageUrl)\<close> loop. \<open>fetchJson k url\<close> is what the \<open>k\<close>-th call
  \<^verbatim>\<open>fetchWithRetry(nextPageUrl, APP_HEADERS)\<close> of this listing resolves to. Nothing bounds
  the number of pages, so the loop need not return: \<open>None\<close> is a listing that never ends.
\<close>

partial_function (option) pages_loop ::
  "(nat \<Rightarrow> string \<Rightarrow> page option) \<Rightarrow> nat \<Rightarrow> string option \<Rightarrow> server list \<Rightarrow> server list option" where
  "pages_loop fetchJson k nextPageUrl serverUUIDs =
     (case nextPageUrl of
        None \<Rightarrow> Some serverUUIDs
      | Some url \<Rightarrow>
          (case fetchJson k url of
             None \<Rightarrow> Some []
           | Some data \<Rightarrow>
               pages_loop fetchJson (Suc k) (next_or_null data)
                 (push_servers serverUUIDs (page_data data))))"

definition getAllServersFromAppAPI :: "(nat \<Rightarrow> string \<Rightarrow> page option) \<Rightarrow> server list option" where
  "getAllServersFromAppAPI fetchJson =
     pages_loop fetchJson 0 (Some (PANEL_URL @ ''/api/application/servers?page=1'')) []"

subsection \<open>The listing of the first script\<close>

definition PANEL_URL_first :: string where
  "PANEL_URL_first = ''https://panel.embotic.xyz/''"

definition listed_first :: "attributes \<Rightarrow> server_first" where
  "listed_first a = \<lparr>server_first.uuid = attributes.uuid a,
                      server_first.limits = attributes.limits a,
                      server_first.name = attributes.name a\<rparr>"

text \<open>
  The \<^verbatim>\<open>for (const server of data.data)\<close> loop with its test
  \<^verbatim>\<open>![1, 6].includes(server.attributes.nest_id)\<close>.
\<close>

fun push_servers_first :: "server_first list \<Rightarrow> attributes list \<Rightarrow> server_first list" where
  "push_servers_first serverUUIDs [] = serverUUIDs"
| "push_servers_first serverUUIDs (a # as) =
     (if \<not> (nest_id a \<in> set [1, 6]) then push_servers_first (serverUUIDs @ [listed_first a]) as
      else push_servers_first serverUUIDs as)"

text \<open>The \<^verbatim>\<open>while (nextPageUrl)\<close> loop of the first script, read as the second's.\<close>

partial_function (option) pages_loop_first ::
  "(nat \<Rightarrow> string \<Rightarrow> page option) \<Rightarrow> nat \<Rightarrow> string option \<Rightarrow> server_first list \<Rightarrow>
   server_first list option" where
  "pages_loop_first fetchJson k nextPageUrl serverUUIDs =
     (case nextPageUrl of
        None \<Rightarrow> Some serverUUIDs
      | Some url \<Rightarrow>
          (case fetchJson k url of
             None \<Rightarrow> Some []
           | Some data \<Rightarrow>
               pages_loop_first fetchJson (Suc k) (next_or_null data)
                 (push_servers_first serverUUIDs (page_data data))))"

definition getAllServersFromAppAPI_first ::
  "(nat \<Rightarrow> string \<Rightarrow> page option) \<Rightarrow> server_first list option" where
  "getAllServersFromAppAPI_first fetchJson =
     pages_loop_first fetchJson 0 (Some (PANEL_URL_first @ ''/api/application/servers?page=1'')) []"

subsection \<open>The pages of a listing\<close>

text \<open>
  The pages a listing walks through. \<open>listing_ends\<close>: every fetch from \<open>url\<close> on, following
  the \<^verbatim>\<open>next\<close> links, yields a page, and the last page has no link. \<open>listing_fails\<close>:
  following the links from \<open>url\<close> leads to a fetch that yields no data.
\<close>

inductive listing_ends ::
  "(nat \<Rightarrow> string \<Rightarrow> page option) \<Rightarrow> nat \<Rightarrow> string \<Rightarrow> page list \<Rightarrow> bool" where
  last_page: "fetchJson k url = Some p \<Longrightarrow> next_or_null p = None \<Longrightarrow>
     listing_ends fetchJson k url [p]"
| next_page: "fetchJson k url = Some p \<Longrightarrow> next_or_null p = Some url' \<Longrightarrow>
     listing_ends fetchJson (Suc k) url' ps \<Longrightarrow> listing_ends fetchJson k url (p # ps)"

inductive listing_fails :: "(nat \<Rightarrow> string \<Rightarrow> page option) \<Rightarrow> nat \<Rightarrow> string \<Rightarrow> bool" where
  no_data: "fetchJson k url = None \<Longrightarrow> listing_fails fetchJson k url"
| later_no_data: "fetchJson k url = Some p \<Longrightarrow> next_or_null p = Some url' \<Longrightarrow>
     listing_fails fetchJson (Suc k) url' \<Longrightarrow> listing_fails fetchJson k url"

code_pred listing_ends .

code_pred listing_fails .

section \<open>One poll cycle (second script)\<close>

text \<open>
  The body of the main loop: list the instances, then call
  \<^verbatim>\<open>getServerResources(server.uuid, server.limits, server.name, server.nest)\<close> on each.
  \<open>observe\<close> gives, for an instance, the snapshot fetched in this cycle and the two clock
  readings. The calls of one batch are started together by \<^verbatim>\<open>Promise.all\<close>; each works
  on the record of its own instance, and they are taken here in listing order. The
  sleeps between batches and cycles are not part of the result.
\<close>

fun evaluate_all ::
  "tracker \<Rightarrow> (string \<Rightarrow> resources option \<times> int \<times> int) \<Rightarrow> server list \<Rightarrow> tracker \<times> effect list" where
  "evaluate_all overLimitTracker observe [] = (overLimitTracker, [])"
| "evaluate_all overLimitTracker observe (s # servers) =
     (let (data, now_created, now_checked) = observe (server.uuid s);
          (tracker', effects) =
             getServerResources overLimitTracker (server.uuid s) (server.limits s) (nest s)
               data now_created now_checked;
          (tracker'', effects') = evaluate_all tracker' observe servers
      in (tracker'', effects @ effects'))"

definition poll_cycle ::
  "tracker \<Rightarrow> (nat \<Rightarrow> string \<Rightarrow> page option) \<Rightarrow> (string \<Rightarrow> resources option \<times> int \<times> int) \<Rightarrow>
   (tracker \<times> effect list) option" where
  "poll_cycle overLimitTracker fetchJson observe =
     (case getAllServersFromAppAPI fetchJson of
        None \<Rightarrow> None
      | Some servers \<Rightarrow> Some (evaluate_all overLimitTracker observe servers))"

section \<open>The breach predicate\<close>

lemma memory_clause_bytes:
  "memoryGB res \<ge> memoryLimitGB lims \<longleftrightarrow> memory_bytes res \<ge> memory lims * 1024 ^ 2"
  by (simp add: memoryGB_def memoryLimitGB_def field_simps)

lemma disk_clause_bytes:
  "diskGB res \<ge> diskLimitGB lims \<longleftrightarrow> disk_bytes res \<ge> disk lims * 1024 ^ 2"
  by (simp add: diskGB_def diskLimitGB_def field_simps)

text \<open>
  Claim C1. The instance is in breach exactly when some configured limit above zero is
  met or exceeded, usage and limit both taken in GB (bytes over \<open>1024 ^ 3\<close>, MB over
  \<open>1024\<close>); the comparison is inclusive. With all three limits zero no snapshot is a
  breach, and a snapshot that sits exactly on a positive limit is a breach.
\<close>

theorem over_limit_iff:
  "(over_limit lims res \<longleftrightarrow>
      (cpu lims > 0 \<and> cpu_absolute res \<ge> cpu lims) \<or>
      (memory lims > 0 \<and> memory_bytes res / 1024 ^ 3 \<ge> memory lims / 1024) \<or>
      (disk lims > 0 \<and> disk_bytes res / 1024 ^ 3 \<ge> disk lims / 1024))
   \<and> (cpu lims = 0 \<and> memory lims = 0 \<and> disk lims = 0 \<longrightarrow> \<not> over_limit lims res)
   \<and> (cpu lims > 0 \<and> cpu_absolute res = cpu lims \<longrightarrow> over_limit lims res)
   \<and> (memory lims > 0 \<and> memory_bytes res = memory lims * 1024 ^ 2 \<longrightarrow> over_limit lims res)
   \<and> (disk lims > 0 \<and> disk_bytes res = disk lims * 1024 ^ 2 \<longrightarrow> over_limit lims res)"
proof -
  have iff: "over_limit lims res \<longleftrightarrow>
      (cpu lims > 0 \<and> cpu_absolute res \<ge> cpu lims) \<or>
      (memory lims > 0 \<and> memory_bytes res / 1024 ^ 3 \<ge> memory lims / 1024) \<or>
      (disk lims > 0 \<and> disk_bytes res / 1024 ^ 3 \<ge> disk lims / 1024)"
    by (simp add: over_limit_def cpuLimit_def cpuUsage_def memoryGB_def memoryLimitGB_def
        diskGB_def diskLimitGB_def)
  have zero: "cpu lims = 0 \<and> memory lims = 0 \<and> disk lims = 0 \<longrightarrow> \<not> over_limit lims res"
    by (simp add: over_limit_def cpuLimit_def)
  have at_cpu: "cpu lims > 0 \<and> cpu_absolute res = cpu lims \<longrightarrow> over_limit lims res"
    by (simp add: over_limit_def cpuLimit_def cpuUsage_def)
  have at_mem: "memory lims > 0 \<and> memory_bytes res = memory lims * 1024 ^ 2 \<longrightarrow> over_limit lims res"
    by (simp add: over_limit_def memory_clause_bytes)
  have at_disk: "disk lims > 0 \<and> disk_bytes res = disk lims * 1024 ^ 2 \<longrightarrow> over_limit lims res"
    by (simp add: over_limit_def disk_clause_bytes)
  from iff zero at_cpu at_mem at_disk show ?thesis by blast
qed

theorem over_limit_iff_witness:
  "\<not> over_limit \<lparr>cpu = 0, memory = 0, disk = 0\<rparr>
       \<lparr>cpu_absolute = 400, memory_bytes = 8589934592, disk_bytes = 8589934592\<rparr>
   \<and> over_limit \<lparr>cpu = 100, memory = 0, disk = 0\<rparr>
       \<lparr>cpu_absolute = 100, memory_bytes = 0, disk_bytes = 0\<rparr>
   \<and> over_limit \<lparr>cpu = 0, memory = 1024, disk = 0\<rparr>
       \<lparr>cpu_absolute = 0, memory_bytes = 1073741824, disk_bytes = 0\<rparr>
   \<and> over_limit \<lparr>cpu = 0, memory = 0, disk = 2048\<rparr>
       \<lparr>cpu_absolute = 0, memory_bytes = 0, disk_bytes = 2147483648\<rparr>"
  using
    over_limit_iff [of "\<lparr>cpu = 0, memory = 0, disk = 0\<rparr>"
      "\<lparr>cpu_absolute = 400, memory_bytes = 8589934592, disk_bytes = 8589934592\<rparr>"]
    over_limit_iff [of "\<lparr>cpu = 100, memory = 0, disk = 0\<rparr>"
      "\<lparr>cpu_absolute = 100, memory_bytes = 0, disk_bytes = 0\<rparr>"]
    over_limit_iff [of "\<lparr>cpu = 0, memory = 1024, disk = 0\<rparr>"
      "\<lparr>cpu_absolute = 0, memory_bytes = 1073741824, disk_bytes = 0\<rparr>"]
    over_limit_iff [of "\<lparr>cpu = 0, memory = 0, disk = 2048\<rparr>"
      "\<lparr>cpu_absolute = 0, memory_bytes = 0, disk_bytes = 2147483648\<rparr>"]
  by simp

text \<open>
  Claim C10. The over-limit conditions of the two scripts agree on every combination of
  limits and snapshot.
\<close>

theorem over_limit_variants_agree: "over_limit_first lims res = over_limit lims res"
  by (simp add: over_limit_first_def over_limit_def)

section \<open>The overage tracker\<close>

lemmas eval_defs = getServerResources_def over_limit_def cpuLimit_def cpuUsage_def memoryGB_def
  memoryLimitGB_def diskGB_def diskLimitGB_def tracked_def elapsedTime_def
  REPORT_THRESHOLD_SECONDS_def KILL_THRESHOLD_SECONDS_def customKillThresholdSeconds_def
  isSpecialNest_def Let_def

lemma gsr_breach:
  "over_limit lims res \<Longrightarrow>
   getServerResources tr u lims n (Some res) t0 t1 =
     (let r1 = (tracked tr u t0)\<lparr>isOverLimit := Some True\<rparr>;
          notify = (elapsedTime t1 r1 \<ge> REPORT_THRESHOLD_SECONDS \<and> \<not> reported r1);
          kill = (elapsedTime t1 r1 \<ge> customKillThresholdSeconds n)
      in ((if kill then tr(u := None)
           else tr(u \<mapsto> (if notify then r1\<lparr>reported := True\<rparr> else r1))),
          (if notify then [NotifyServerOverLimit u] else []) @
          (if kill then [KillServer u, LogToDiscord u] else [])))"
  by (simp add: getServerResources_def Let_def)

lemma elapsed_upd [simp]: "elapsedTime t (r\<lparr>isOverLimit := x\<rparr>) = elapsedTime t r"
  "elapsedTime t (r\<lparr>reported := y\<rparr>) = elapsedTime t r"
  by (simp_all add: elapsedTime_def)

lemma kill_ge_report: "REPORT_THRESHOLD_SECONDS \<le> customKillThresholdSeconds n"
  by (simp add: REPORT_THRESHOLD_SECONDS_def customKillThresholdSeconds_def KILL_THRESHOLD_SECONDS_def)

lemma episode_reported:
  "tr u = Some r \<Longrightarrow> reported r \<Longrightarrow> NotifyServerOverLimit u \<notin> set (episode tr u xs)"
proof (induction xs arbitrary: tr r)
  case Nil
  then show ?case by simp
next
  case (Cons x xs)
  obtain lims n d t0 t1 where x: "x = (lims, n, d, t0, t1)" by (cases x) auto
  show ?case
  proof (cases d)
    case None
    with Cons x show ?thesis by (simp add: getServerResources_def)
  next
    case (Some res)
    show ?thesis
    proof (cases "over_limit lims res")
      case True
      with Cons x Some show ?thesis
        by (auto simp: gsr_breach Let_def tracked_def)
    next
      case False
      with Cons x Some show ?thesis by (simp add: getServerResources_def)
    qed
  qed
qed


lemma episode_count:
  "count_list (episode tr u xs) (NotifyServerOverLimit u) \<le> 1"
proof (induction xs arbitrary: tr)
  case Nil
  then show ?case by simp
next
  case (Cons x xs)
  obtain lims n d t0 t1 where x: "x = (lims, n, d, t0, t1)" by (cases x) auto
  show ?case
  proof (cases d)
    case None
    with Cons [of tr] x show ?thesis by (simp add: getServerResources_def)
  next
    case (Some res)
    show ?thesis
    proof (cases "over_limit lims res")
      case False
      with Cons [of tr] x Some show ?thesis by (simp add: getServerResources_def)
    next
      case True
      let ?r1 = "(tracked tr u t0)\<lparr>isOverLimit := Some True\<rparr>"
      show ?thesis
      proof (cases "elapsedTime t1 ?r1 \<ge> customKillThresholdSeconds n")
        case kill: True
        with True x Some show ?thesis by (simp add: gsr_breach Let_def)
      next
        case nokill: False
        show ?thesis
        proof (cases "elapsedTime t1 ?r1 \<ge> REPORT_THRESHOLD_SECONDS \<and> \<not> reported ?r1")
          case notify: True
          have "NotifyServerOverLimit u \<notin> set (episode (tr(u \<mapsto> ?r1\<lparr>reported := True\<rparr>)) u xs)"
            by (rule episode_reported [where r = "?r1\<lparr>reported := True\<rparr>"]) simp_all
          then have "count_list (episode (tr(u \<mapsto> ?r1\<lparr>reported := True\<rparr>)) u xs) (NotifyServerOverLimit u) = 0"
            by (simp add: count_list_0_iff)
          with True x Some nokill notify show ?thesis by (simp add: gsr_breach Let_def)
        next
          case silent: False
          with True x Some nokill
          have "episode tr u (x # xs) = episode (tr(u \<mapsto> ?r1)) u xs"
            by (auto simp: gsr_breach Let_def)
          with Cons.IH [of "tr(u \<mapsto> ?r1)"] show ?thesis
            by (simp only:)
        qed
      qed
    qed
  qed
qed

lemma notify_iff:
  "NotifyServerOverLimit u \<in> set (snd (getServerResources tr u lims n d t0 t1)) \<longleftrightarrow>
     (\<exists>res. d = Some res \<and> over_limit lims res \<and>
        elapsedTime t1 (tracked tr u t0) \<ge> REPORT_THRESHOLD_SECONDS \<and> \<not> reported (tracked tr u t0))"
proof (cases d)
  case None
  then show ?thesis by (simp add: getServerResources_def)
next
  case (Some res)
  show ?thesis
  proof (cases "over_limit lims res")
    case True
    with Some show ?thesis by (simp add: gsr_breach Let_def)
  next
    case False
    with Some show ?thesis by (simp add: getServerResources_def)
  qed
qed

lemma notify_sets_reported:
  assumes "NotifyServerOverLimit u \<in> set (snd (getServerResources tr u lims n d t0 t1))"
    and "fst (getServerResources tr u lims n d t0 t1) u = Some r'"
  shows "reported r'"
proof -
  from assms(1) obtain res where d: "d = Some res" and o: "over_limit lims res"
    and e: "elapsedTime t1 (tracked tr u t0) \<ge> REPORT_THRESHOLD_SECONDS" "\<not> reported (tracked tr u t0)"
    unfolding notify_iff by blast
  from assms(2) d o e show ?thesis
    by (auto simp: gsr_breach Let_def split: if_splits)
qed

lemma reported_stays:
  assumes "tr u = Some r" "reported r"
    and "fst (getServerResources tr u lims n d t0 t1) u = Some r'"
  shows "reported r'"
proof (cases d)
  case None
  with assms show ?thesis by (simp add: getServerResources_def)
next
  case (Some res)
  show ?thesis
  proof (cases "over_limit lims res")
    case True
    with Some assms show ?thesis by (auto simp: gsr_breach Let_def tracked_def split: if_splits)
  next
    case False
    with Some assms show ?thesis by (simp add: getServerResources_def)
  qed
qed


lemma fresh_record:
  assumes "tr u = None" "over_limit lims res" "of_int (t' - t) / 1000 < REPORT_THRESHOLD_SECONDS"
  shows "getServerResources tr u lims n (Some res) t t' =
           (tr(u \<mapsto> \<lparr>startTime = t, reported = False, isOverLimit = Some True\<rparr>), [])"
proof -
  have "of_int (t' - t) / 1000 < customKillThresholdSeconds n"
    using assms(3) kill_ge_report [of n] by simp
  with assms show ?thesis
    by (simp add: gsr_breach Let_def tracked_def elapsedTime_def not_le [symmetric])
qed

text \<open>
  Claim C2. At most one notification per episode. An evaluation notifies exactly when
  the snapshot is over the limit, the elapsed time has reached the report threshold and
  the record is not yet marked reported; if the record survives that evaluation it is
  marked reported; a record marked reported stays so for as long as it exists; and over
  the whole lifetime of a record, whatever the readings, the notification is emitted at
  most once.
\<close>

theorem notify_once_per_episode:
  "(NotifyServerOverLimit u \<in> set (snd (getServerResources tr u lims n d t0 t1)) \<longleftrightarrow>
      (\<exists>res. d = Some res \<and> over_limit lims res \<and>
         elapsedTime t1 (tracked tr u t0) \<ge> REPORT_THRESHOLD_SECONDS \<and>
         \<not> reported (tracked tr u t0)))
   \<and> (NotifyServerOverLimit u \<in> set (snd (getServerResources tr u lims n d t0 t1)) \<and>
        fst (getServerResources tr u lims n d t0 t1) u = Some r' \<longrightarrow> reported r')
   \<and> (tr u = Some r \<and> reported r \<and>
        fst (getServerResources tr u lims n d t0 t1) u = Some r' \<longrightarrow> reported r')
   \<and> count_list (snd (getServerResources tr u lims n d t0 t1)) (NotifyServerOverLimit u) \<le> 1
   \<and> count_list (episode tr u xs) (NotifyServerOverLimit u) \<le> 1"
proof -
  have "count_list (episode tr u [(lims, n, d, t0, t1)]) (NotifyServerOverLimit u) \<le> 1"
    by (rule episode_count)
  then have one: "count_list (snd (getServerResources tr u lims n d t0 t1)) (NotifyServerOverLimit u) \<le> 1"
    by (simp add: split_beta)
  from notify_iff [of u tr lims n d t0 t1] notify_sets_reported [of u tr lims n d t0 t1 r']
    reported_stays [of tr u r lims n d t0 t1 r'] one episode_count [of tr u xs]
  show ?thesis by blast
qed

theorem notify_once_per_episode_witness:
  "NotifyServerOverLimit ''srv'' \<in> set (snd (getServerResources
      [''srv'' \<mapsto> \<lparr>startTime = 0, reported = False, isOverLimit = Some True\<rparr>] ''srv''
      \<lparr>cpu = 100, memory = 0, disk = 0\<rparr> 0
      (Some \<lparr>cpu_absolute = 150, memory_bytes = 0, disk_bytes = 0\<rparr>) 7200000 7200000))
   \<and> fst (getServerResources
      [''srv'' \<mapsto> \<lparr>startTime = 0, reported = False, isOverLimit = Some True\<rparr>] ''srv''
      \<lparr>cpu = 100, memory = 0, disk = 0\<rparr> 0
      (Some \<lparr>cpu_absolute = 150, memory_bytes = 0, disk_bytes = 0\<rparr>) 7200000 7200000) ''srv''
      = Some \<lparr>startTime = 0, reported = True, isOverLimit = Some True\<rparr>
   \<and> NotifyServerOverLimit ''srv'' \<notin> set (snd (getServerResources
      [''srv'' \<mapsto> \<lparr>startTime = 0, reported = True, isOverLimit = Some True\<rparr>] ''srv''
      \<lparr>cpu = 100, memory = 0, disk = 0\<rparr> 0
      (Some \<lparr>cpu_absolute = 150, memory_bytes = 0, disk_bytes = 0\<rparr>) 7300000 7300000))
   \<and> reported (the (fst (getServerResources
      [''srv'' \<mapsto> \<lparr>startTime = 0, reported = True, isOverLimit = Some True\<rparr>] ''srv''
      \<lparr>cpu = 100, memory = 0, disk = 0\<rparr> 0
      (Some \<lparr>cpu_absolute = 150, memory_bytes = 0, disk_bytes = 0\<rparr>) 7300000 7300000) ''srv''))
   \<and> count_list (episode
      [''srv'' \<mapsto> \<lparr>startTime = 0, reported = False, isOverLimit = Some True\<rparr>] ''srv''
      [(\<lparr>cpu = 100, memory = 0, disk = 0\<rparr>, 0,
        Some \<lparr>cpu_absolute = 150, memory_bytes = 0, disk_bytes = 0\<rparr>, 7200000, 7200000),
       (\<lparr>cpu = 100, memory = 0, disk = 0\<rparr>, 0,
        Some \<lparr>cpu_absolute = 150, memory_bytes = 0, disk_bytes = 0\<rparr>, 7300000, 7300000)])
      (NotifyServerOverLimit ''srv'') \<le> 1"
proof -
  let ?L = "\<lparr>cpu = 100, memory = 0, disk = 0\<rparr>"
  let ?R = "\<lparr>cpu_absolute = 150, memory_bytes = 0, disk_bytes = 0\<rparr>"
  let ?tr0 = "[''srv'' \<mapsto> \<lparr>startTime = 0, reported = False, isOverLimit = Some True\<rparr>]"
  let ?tr1 = "[''srv'' \<mapsto> \<lparr>startTime = 0, reported = True, isOverLimit = Some True\<rparr>]"
  let ?xs = "[(?L, 0, Some ?R, 7200000, 7200000), (?L, 0, Some ?R, 7300000, 7300000)]"
  have over: "over_limit ?L ?R"
    by (simp add: over_limit_def cpuLimit_def cpuUsage_def)
  have due: "elapsedTime 7200000 (tracked ?tr0 ''srv'' 7200000) \<ge> REPORT_THRESHOLD_SECONDS"
    and fresh: "\<not> reported (tracked ?tr0 ''srv'' 7200000)"
    by (simp_all add: tracked_def elapsedTime_def REPORT_THRESHOLD_SECONDS_def)
  have after0: "fst (getServerResources ?tr0 ''srv'' ?L 0 (Some ?R) 7200000 7200000) ''srv''
      = Some \<lparr>startTime = 0, reported = True, isOverLimit = Some True\<rparr>"
    by (simp add: eval_defs)
  have after1: "fst (getServerResources ?tr1 ''srv'' ?L 0 (Some ?R) 7300000 7300000) ''srv''
      = Some \<lparr>startTime = 0, reported = True, isOverLimit = Some True\<rparr>"
    by (simp add: eval_defs)
  note a = notify_once_per_episode [where u = "''srv''" and tr = ?tr0 and lims = ?L and n = 0
      and d = "Some ?R" and ?t0.0 = 7200000 and ?t1.0 = 7200000
      and r' = "\<lparr>startTime = 0, reported = True, isOverLimit = Some True\<rparr>"
      and r = "\<lparr>startTime = 0, reported = False, isOverLimit = Some True\<rparr>" and xs = ?xs]
  note b = notify_once_per_episode [where u = "''srv''" and tr = ?tr1 and lims = ?L and n = 0
      and d = "Some ?R" and ?t0.0 = 7300000 and ?t1.0 = 7300000
      and r' = "\<lparr>startTime = 0, reported = True, isOverLimit = Some True\<rparr>"
      and r = "\<lparr>startTime = 0, reported = True, isOverLimit = Some True\<rparr>" and xs = "[]"]
  from a over due fresh
  have n0: "NotifyServerOverLimit ''srv'' \<in> set (snd (getServerResources ?tr0 ''srv'' ?L 0 (Some ?R) 7200000 7200000))"
    by blast
  from a have c: "count_list (episode ?tr0 ''srv'' ?xs) (NotifyServerOverLimit ''srv'') \<le> 1"
    by blast
  have "\<not> \<not> reported (tracked ?tr1 ''srv'' 7300000)"
    by (simp add: tracked_def)
  with b have n1: "NotifyServerOverLimit ''srv'' \<notin> set (snd (getServerResources ?tr1 ''srv'' ?L 0 (Some ?R) 7300000 7300000))"
    by blast
  from b after1 have r1: "reported (the (fst (getServerResources ?tr1 ''srv'' ?L 0 (Some ?R) 7300000 7300000) ''srv''))"
    by simp
  from n0 after0 n1 r1 c show ?thesis by blast
qed

text \<open>
  Claim C3. When the snapshot is over the limit and the elapsed time has reached the
  applicable kill threshold, the evaluation kills the instance, logs the action and
  deletes the record, whether or not the record was marked reported (an unreported
  record is notified first, in the same evaluation). The next evaluation that finds the
  instance over the limit creates a new record that starts at its own clock reading.
\<close>

theorem terminate_at_kill_threshold:
  "over_limit lims res \<and> elapsedTime t1 (tracked tr u t0) \<ge> customKillThresholdSeconds n \<longrightarrow>
     getServerResources tr u lims n (Some res) t0 t1 =
       (tr(u := None),
        (if reported (tracked tr u t0) then [] else [NotifyServerOverLimit u]) @
        [KillServer u, LogToDiscord u])
     \<and> (over_limit lims' res' \<and> of_int (t' - t) / 1000 < REPORT_THRESHOLD_SECONDS \<longrightarrow>
          getServerResources (fst (getServerResources tr u lims n (Some res) t0 t1)) u lims' n' (Some res') t t' =
            (tr(u \<mapsto> \<lparr>startTime = t, reported = False, isOverLimit = Some True\<rparr>), []))"
proof (intro impI, elim conjE)
  assume o: "over_limit lims res" and k: "elapsedTime t1 (tracked tr u t0) \<ge> customKillThresholdSeconds n"
  from k kill_ge_report [of n] have rep: "elapsedTime t1 (tracked tr u t0) \<ge> REPORT_THRESHOLD_SECONDS"
    by simp
  from o k rep have first: "getServerResources tr u lims n (Some res) t0 t1 =
       (tr(u := None),
        (if reported (tracked tr u t0) then [] else [NotifyServerOverLimit u]) @
        [KillServer u, LogToDiscord u])"
    by (simp add: gsr_breach Let_def)
  have "over_limit lims' res' \<and> of_int (t' - t) / 1000 < REPORT_THRESHOLD_SECONDS \<longrightarrow>
          getServerResources (tr(u := None)) u lims' n' (Some res') t t' =
            (tr(u \<mapsto> \<lparr>startTime = t, reported = False, isOverLimit = Some True\<rparr>), [])"
    using fresh_record [of "tr(u := None)" u lims' res' t' t n'] by simp
  with first show "getServerResources tr u lims n (Some res) t0 t1 =
       (tr(u := None),
        (if reported (tracked tr u t0) then [] else [NotifyServerOverLimit u]) @
        [KillServer u, LogToDiscord u])
     \<and> (over_limit lims' res' \<and> of_int (t' - t) / 1000 < REPORT_THRESHOLD_SECONDS \<longrightarrow>
          getServerResources (fst (getServerResources tr u lims n (Some res) t0 t1)) u lims' n' (Some res') t t' =
            (tr(u \<mapsto> \<lparr>startTime = t, reported = False, isOverLimit = Some True\<rparr>), []))"
    by simp
qed

theorem terminate_at_kill_threshold_witness:
  "getServerResources
      [''srv'' \<mapsto> \<lparr>startTime = 0, reported = False, isOverLimit = Some True\<rparr>] ''srv''
      \<lparr>cpu = 100, memory = 0, disk = 0\<rparr> 0
      (Some \<lparr>cpu_absolute = 150, memory_bytes = 0, disk_bytes = 0\<rparr>) 10800000 10800000
    = ([''srv'' \<mapsto> \<lparr>startTime = 0, reported = False, isOverLimit = Some True\<rparr>](''srv'' := None),
       [NotifyServerOverLimit ''srv'', KillServer ''srv'', LogToDiscord ''srv''])
   \<and> getServerResources (fst (getServerResources
      [''srv'' \<mapsto> \<lparr>startTime = 0, reported = False, isOverLimit = Some True\<rparr>] ''srv''
      \<lparr>cpu = 100, memory = 0, disk = 0\<rparr> 0
      (Some \<lparr>cpu_absolute = 150, memory_bytes = 0, disk_bytes = 0\<rparr>) 10800000 10800000)) ''srv''
      \<lparr>cpu = 100, memory = 0, disk = 0\<rparr> 1
      (Some \<lparr>cpu_absolute = 150, memory_bytes = 0, disk_bytes = 0\<rparr>) 10860000 10860001
    = ([''srv'' \<mapsto> \<lparr>startTime = 0, reported = False, isOverLimit = Some True\<rparr>]
         (''srv'' \<mapsto> \<lparr>startTime = 10860000, reported = False, isOverLimit = Some True\<rparr>), [])"
proof -
  let ?L = "\<lparr>cpu = 100, memory = 0, disk = 0\<rparr>"
  let ?R = "\<lparr>cpu_absolute = 150, memory_bytes = 0, disk_bytes = 0\<rparr>"
  let ?tr0 = "[''srv'' \<mapsto> \<lparr>startTime = 0, reported = False, isOverLimit = Some True\<rparr>]"
  have over: "over_limit ?L ?R"
    by (simp add: over_limit_def cpuLimit_def cpuUsage_def)
  have due: "elapsedTime 10800000 (tracked ?tr0 ''srv'' 10800000) \<ge> customKillThresholdSeconds 0"
    by (simp add: tracked_def elapsedTime_def customKillThresholdSeconds_def isSpecialNest_def
        KILL_THRESHOLD_SECONDS_def)
  have soon: "of_int (10860001 - 10860000) / 1000 < REPORT_THRESHOLD_SECONDS"
    by (simp add: REPORT_THRESHOLD_SECONDS_def)
  have fresh: "reported (tracked ?tr0 ''srv'' 10800000) = False"
    by (simp add: tracked_def)
  note inst = terminate_at_kill_threshold [where lims = ?L and res = ?R and tr = ?tr0
      and u = "''srv''" and ?t0.0 = 10800000 and ?t1.0 = 10800000 and n = 0 and lims' = ?L
      and res' = ?R and t = 10860000 and t' = 10860001 and n' = 1]
  from inst over due have "getServerResources ?tr0 ''srv'' ?L 0 (Some ?R) 10800000 10800000 =
      (?tr0(''srv'' := None),
       (if reported (tracked ?tr0 ''srv'' 10800000) then [] else [NotifyServerOverLimit ''srv'']) @
       [KillServer ''srv'', LogToDiscord ''srv''])"
    by blast
  then have first: "getServerResources ?tr0 ''srv'' ?L 0 (Some ?R) 10800000 10800000 =
      (?tr0(''srv'' := None), [NotifyServerOverLimit ''srv'', KillServer ''srv'', LogToDiscord ''srv''])"
    by (simp only: fresh if_False append_Nil append_Cons)
  from inst over due soon
  have "getServerResources (fst (getServerResources ?tr0 ''srv'' ?L 0 (Some ?R) 10800000 10800000))
      ''srv'' ?L 1 (Some ?R) 10860000 10860001 =
      (?tr0(''srv'' \<mapsto> \<lparr>startTime = 10860000, reported = False, isOverLimit = Some True\<rparr>), [])"
    by blast
  with first show ?thesis by (rule conjI)
qed

text \<open>
  Claim C4. An evaluation that finds the instance within its limits deletes an existing
  record without any effect, and the next evaluation over the limit creates a record that
  starts at its own clock reading; with no record the tracker is returned unchanged.
\<close>

theorem recovery_resets_timer:
  "(\<not> over_limit lims res \<and> tr u = Some r \<longrightarrow>
      getServerResources tr u lims n (Some res) t0 t1 = (tr(u := None), [])
      \<and> (over_limit lims' res' \<and> of_int (t' - t) / 1000 < REPORT_THRESHOLD_SECONDS \<longrightarrow>
           getServerResources (fst (getServerResources tr u lims n (Some res) t0 t1)) u lims' n' (Some res') t t' =
             (tr(u \<mapsto> \<lparr>startTime = t, reported = False, isOverLimit = Some True\<rparr>), [])))
   \<and> (\<not> over_limit lims res \<and> tr u = None \<longrightarrow>
        getServerResources tr u lims n (Some res) t0 t1 = (tr, []))"
proof -
  have del: "\<not> over_limit lims res \<and> tr u = Some r \<longrightarrow>
      getServerResources tr u lims n (Some res) t0 t1 = (tr(u := None), [])"
    by (simp add: getServerResources_def)
  have again: "over_limit lims' res' \<and> of_int (t' - t) / 1000 < REPORT_THRESHOLD_SECONDS \<longrightarrow>
          getServerResources (tr(u := None)) u lims' n' (Some res') t t' =
            (tr(u \<mapsto> \<lparr>startTime = t, reported = False, isOverLimit = Some True\<rparr>), [])"
    using fresh_record [of "tr(u := None)" u lims' res' t' t n'] by simp
  have same: "\<not> over_limit lims res \<and> tr u = None \<longrightarrow>
        getServerResources tr u lims n (Some res) t0 t1 = (tr, [])"
    by (simp add: getServerResources_def)
  from del again same show ?thesis by simp
qed

theorem recovery_resets_timer_witness:
  "getServerResources
      [''srv'' \<mapsto> \<lparr>startTime = 0, reported = False, isOverLimit = Some True\<rparr>] ''srv''
      \<lparr>cpu = 100, memory = 0, disk = 0\<rparr> 0
      (Some \<lparr>cpu_absolute = 50, memory_bytes = 0, disk_bytes = 0\<rparr>) 100000 100000
    = ([''srv'' \<mapsto> \<lparr>startTime = 0, reported = False, isOverLimit = Some True\<rparr>](''srv'' := None), [])
   \<and> getServerResources (fst (getServerResources
      [''srv'' \<mapsto> \<lparr>startTime = 0, reported = False, isOverLimit = Some True\<rparr>] ''srv''
      \<lparr>cpu = 100, memory = 0, disk = 0\<rparr> 0
      (Some \<lparr>cpu_absolute = 50, memory_bytes = 0, disk_bytes = 0\<rparr>) 100000 100000)) ''srv''
      \<lparr>cpu = 100, memory = 0, disk = 0\<rparr> 0
      (Some \<lparr>cpu_absolute = 150, memory_bytes = 0, disk_bytes = 0\<rparr>) 200000 200000
    = ([''srv'' \<mapsto> \<lparr>startTime = 0, reported = False, isOverLimit = Some True\<rparr>]
         (''srv'' \<mapsto> \<lparr>startTime = 200000, reported = False, isOverLimit = Some True\<rparr>), [])
   \<and> getServerResources Map.empty ''srv'' \<lparr>cpu = 100, memory = 0, disk = 0\<rparr> 0
      (Some \<lparr>cpu_absolute = 50, memory_bytes = 0, disk_bytes = 0\<rparr>) 100000 100000
    = (Map.empty, [])"
proof -
  let ?L = "\<lparr>cpu = 100, memory = 0, disk = 0\<rparr>"
  let ?R = "\<lparr>cpu_absolute = 150, memory_bytes = 0, disk_bytes = 0\<rparr>"
  let ?Q = "\<lparr>cpu_absolute = 50, memory_bytes = 0, disk_bytes = 0\<rparr>"
  let ?r = "\<lparr>startTime = 0, reported = False, isOverLimit = Some True\<rparr>"
  let ?tr0 = "[''srv'' \<mapsto> ?r]"
  have over: "over_limit ?L ?R" and within: "\<not> over_limit ?L ?Q"
    by (simp_all add: over_limit_def cpuLimit_def cpuUsage_def)
  have soon: "of_int (200000 - 200000) / 1000 < REPORT_THRESHOLD_SECONDS"
    by (simp add: REPORT_THRESHOLD_SECONDS_def)
  have rec: "?tr0 ''srv'' = Some ?r" and norec: "(Map.empty :: tracker) ''srv'' = None"
    by simp_all
  note a = recovery_resets_timer [where lims = ?L and res = ?Q and tr = ?tr0 and u = "''srv''"
      and r = ?r and n = 0 and ?t0.0 = 100000 and ?t1.0 = 100000 and lims' = ?L and res' = ?R
      and t = 200000 and t' = 200000 and n' = 0]
  note b = recovery_resets_timer [where lims = ?L and res = ?Q and tr = Map.empty
      and u = "''srv''" and r = ?r and n = 0 and ?t0.0 = 100000 and ?t1.0 = 100000
      and lims' = ?L and res' = ?R and t = 200000 and t' = 200000 and n' = 0]
  from a within rec
  have first: "getServerResources ?tr0 ''srv'' ?L 0 (Some ?Q) 100000 100000 = (?tr0(''srv'' := None), [])"
    by blast
  from a within rec over soon
  have second: "getServerResources (fst (getServerResources ?tr0 ''srv'' ?L 0 (Some ?Q) 100000 100000))
      ''srv'' ?L 0 (Some ?R) 200000 200000 =
      (?tr0(''srv'' \<mapsto> \<lparr>startTime = 200000, reported = False, isOverLimit = Some True\<rparr>), [])"
    by blast
  from b within norec
  have third: "getServerResources Map.empty ''srv'' ?L 0 (Some ?Q) 100000 100000 = (Map.empty, [])"
    by blast
  from first second third show ?thesis by blast
qed

text \<open>
  Claim C6. Over the limit with the elapsed time below the report threshold and below
  the applicable kill threshold: no effect is emitted, the record stays, and its
  \<open>startTime\<close> and \<open>reported\<close> are what they were.
\<close>

theorem below_thresholds_no_action:
  "(over_limit lims res \<and> tr u = Some r \<and>
    elapsedTime t1 r < REPORT_THRESHOLD_SECONDS \<and> elapsedTime t1 r < customKillThresholdSeconds n \<longrightarrow>
      getServerResources tr u lims n (Some res) t0 t1 = (tr(u \<mapsto> r\<lparr>isOverLimit := Some True\<rparr>), [])
      \<and> (\<exists>r'. fst (getServerResources tr u lims n (Some res) t0 t1) u = Some r' \<and>
               startTime r' = startTime r \<and> reported r' = reported r))
   \<and> (over_limit lims res \<and> tr u = None \<and> of_int (t1 - t0) / 1000 < REPORT_THRESHOLD_SECONDS \<longrightarrow>
      getServerResources tr u lims n (Some res) t0 t1 =
        (tr(u \<mapsto> \<lparr>startTime = t0, reported = False, isOverLimit = Some True\<rparr>), []))"
proof -
  have kept: "getServerResources tr u lims n (Some res) t0 t1 =
      (tr(u \<mapsto> r\<lparr>isOverLimit := Some True\<rparr>), [])"
    if "over_limit lims res" "tr u = Some r" "elapsedTime t1 r < REPORT_THRESHOLD_SECONDS"
      "elapsedTime t1 r < customKillThresholdSeconds n"
    using that by (simp add: gsr_breach Let_def tracked_def not_le [symmetric])
  have fields: "startTime (r\<lparr>isOverLimit := Some True\<rparr>) = startTime r"
    "reported (r\<lparr>isOverLimit := Some True\<rparr>) = reported r"
    by simp_all
  from kept fields fresh_record [of tr u lims res t1 t0 n] show ?thesis
    by auto
qed

theorem below_thresholds_no_action_witness:
  "getServerResources
      [''srv'' \<mapsto> \<lparr>startTime = 0, reported = False, isOverLimit = Some True\<rparr>] ''srv''
      \<lparr>cpu = 100, memory = 0, disk = 0\<rparr> 0
      (Some \<lparr>cpu_absolute = 150, memory_bytes = 0, disk_bytes = 0\<rparr>) 7199999 7199999
    = ([''srv'' \<mapsto> \<lparr>startTime = 0, reported = False, isOverLimit = Some True\<rparr>], [])
   \<and> getServerResources Map.empty ''srv'' \<lparr>cpu = 100, memory = 0, disk = 0\<rparr> 0
      (Some \<lparr>cpu_absolute = 150, memory_bytes = 0, disk_bytes = 0\<rparr>) 5000 5001
    = ([''srv'' \<mapsto> \<lparr>startTime = 5000, reported = False, isOverLimit = Some True\<rparr>], [])"
proof -
  let ?L = "\<lparr>cpu = 100, memory = 0, disk = 0\<rparr>"
  let ?R = "\<lparr>cpu_absolute = 150, memory_bytes = 0, disk_bytes = 0\<rparr>"
  let ?r = "\<lparr>startTime = 0, reported = False, isOverLimit = Some True\<rparr>"
  let ?tr0 = "[''srv'' \<mapsto> ?r]"
  have over: "over_limit ?L ?R"
    by (simp add: over_limit_def cpuLimit_def cpuUsage_def)
  have rec: "?tr0 ''srv'' = Some ?r" and norec: "(Map.empty :: tracker) ''srv'' = None"
    by simp_all
  have lo: "elapsedTime 7199999 ?r < REPORT_THRESHOLD_SECONDS"
    "elapsedTime 7199999 ?r < customKillThresholdSeconds 0"
    "of_int (5001 - 5000) / 1000 < REPORT_THRESHOLD_SECONDS"
    by (simp_all add: elapsedTime_def REPORT_THRESHOLD_SECONDS_def customKillThresholdSeconds_def
        isSpecialNest_def KILL_THRESHOLD_SECONDS_def)
  from below_thresholds_no_action [where lims = ?L and res = ?R and tr = ?tr0 and u = "''srv''"
      and r = ?r and ?t1.0 = 7199999 and n = 0 and ?t0.0 = 7199999] over rec lo
  have kept: "getServerResources ?tr0 ''srv'' ?L 0 (Some ?R) 7199999 7199999 =
      (?tr0(''srv'' \<mapsto> ?r\<lparr>isOverLimit := Some True\<rparr>), [])"
    by blast
  from below_thresholds_no_action [where lims = ?L and res = ?R and tr = Map.empty
      and u = "''srv''" and r = ?r and ?t1.0 = 5001 and n = 0 and ?t0.0 = 5000] over norec lo
  have created: "getServerResources Map.empty ''srv'' ?L 0 (Some ?R) 5000 5001 =
      ([''srv'' \<mapsto> \<lparr>startTime = 5000, reported = False, isOverLimit = Some True\<rparr>], [])"
    by blast
  from kept created show ?thesis by simp
qed

section \<open>Fetching with retry\<close>

lemma fetch_ok:
  "fetch k = Response status body \<Longrightarrow> 200 \<le> status \<Longrightarrow> status < 300 \<Longrightarrow>
   fetchWithRetry fetch k retries = (body, [FetchCall])"
  by (subst fetchWithRetry.simps) simp

lemma fetch_retry:
  "fetch k = Response 504 body \<Longrightarrow> retries > 0 \<Longrightarrow>
   fetchWithRetry fetch k retries =
     (fst (fetchWithRetry fetch (Suc k) (retries - 1)),
      FetchCall # Sleep DELAY_BETWEEN_CHECKS_MS # snd (fetchWithRetry fetch (Suc k) (retries - 1)))"
  by (subst fetchWithRetry.simps) (simp add: split_beta)

lemma fetch_network_error:
  "fetch k = NetworkError \<Longrightarrow> fetchWithRetry fetch k retries = (None, [FetchCall])"
  by (subst fetchWithRetry.simps) simp

lemma fetch_give_up:
  "fetch k = Response status body \<Longrightarrow> \<not> (200 \<le> status \<and> status < 300) \<Longrightarrow>
   \<not> (status = 504 \<and> retries > 0) \<Longrightarrow>
   fetchWithRetry fetch k retries = (None, [FetchCall])"
  by (subst fetchWithRetry.simps) auto

lemma fetch_trace_shape:
  "\<exists>m. int m \<le> max 0 retries \<and>
       snd (fetchWithRetry fetch k retries) =
         concat (replicate m [FetchCall, Sleep DELAY_BETWEEN_CHECKS_MS]) @ [FetchCall]"
proof (induction fetch k retries rule: fetchWithRetry.induct)
  case (1 fetch k retries)
  show ?case
  proof (cases "fetch k")
    case NetworkError
    then have "snd (fetchWithRetry fetch k retries) =
        concat (replicate 0 [FetchCall, Sleep DELAY_BETWEEN_CHECKS_MS]) @ [FetchCall]"
      by (simp add: fetch_network_error)
    then show ?thesis by (intro exI [of _ 0]) simp
  next
    case (Response status body)
    consider (ok) "200 \<le> status \<and> status < 300"
      | (retry) "\<not> (200 \<le> status \<and> status < 300)" "status = 504 \<and> retries > 0"
      | (give_up) "\<not> (200 \<le> status \<and> status < 300)" "\<not> (status = 504 \<and> retries > 0)"
      by blast
    then show ?thesis
    proof cases
      case ok
      with Response have "snd (fetchWithRetry fetch k retries) =
          concat (replicate 0 [FetchCall, Sleep DELAY_BETWEEN_CHECKS_MS]) @ [FetchCall]"
        by (simp add: fetch_ok)
      then show ?thesis by (intro exI [of _ 0]) simp
    next
      case retry
      from "1.IH" [OF Response retry] obtain m where
        m: "int m \<le> max 0 (retries - 1)"
        and tr: "snd (fetchWithRetry fetch (Suc k) (retries - 1)) =
          concat (replicate m [FetchCall, Sleep DELAY_BETWEEN_CHECKS_MS]) @ [FetchCall]"
        by blast
      from Response retry tr have "snd (fetchWithRetry fetch k retries) =
          concat (replicate (Suc m) [FetchCall, Sleep DELAY_BETWEEN_CHECKS_MS]) @ [FetchCall]"
        by (simp add: fetch_retry)
      moreover from m retry have "int (Suc m) \<le> max 0 retries" by simp
      ultimately show ?thesis by blast
    next
      case give_up
      with Response have "snd (fetchWithRetry fetch k retries) =
          concat (replicate 0 [FetchCall, Sleep DELAY_BETWEEN_CHECKS_MS]) @ [FetchCall]"
        by (simp add: fetch_give_up)
      then show ?thesis by (intro exI [of _ 0]) simp
    qed
  qed
qed

lemma count_replicate_calls:
  "count_list (concat (replicate m [FetchCall, Sleep d])) FetchCall = m"
  by (induction m) simp_all

lemma count_replicate_sleeps:
  "count_list (concat (replicate m [FetchCall, Sleep d])) (Sleep d) = m"
  by (induction m) simp_all

lemma fetch_calls_bound:
  "int (count_list (snd (fetchWithRetry fetch k retries)) FetchCall) \<le> max 0 retries + 1"
proof -
  from fetch_trace_shape [of retries fetch k] obtain m where
    "int m \<le> max 0 retries"
    "snd (fetchWithRetry fetch k retries) =
       concat (replicate m [FetchCall, Sleep DELAY_BETWEEN_CHECKS_MS]) @ [FetchCall]"
    by blast
  then show ?thesis by (simp add: count_replicate_calls)
qed

text \<open>
  Claim C8. \<^verbatim>\<open>fetchWithRetry\<close> resolves to what \<^verbatim>\<open>response.json()\<close> yields when the
  response is ok, after that single call; on status 504 with \<open>retries\<close> above zero it
  sleeps \<open>DELAY_BETWEEN_CHECKS_MS\<close> and calls itself with one retry less; on a rejected
  fetch, on any other status, and on 504 with no retries left it resolves to \<^verbatim>\<open>null\<close>
  after that single call. Every sleep in the trace has the same fixed length.
\<close>

theorem fetchWithRetry_outcomes:
  "(fetch k = Response status body \<and> 200 \<le> status \<and> status < 300 \<longrightarrow>
      fetchWithRetry fetch k retries = (body, [FetchCall]))
   \<and> (fetch k = Response 504 body \<and> retries > 0 \<longrightarrow>
      fetchWithRetry fetch k retries =
        (fst (fetchWithRetry fetch (Suc k) (retries - 1)),
         FetchCall # Sleep DELAY_BETWEEN_CHECKS_MS # snd (fetchWithRetry fetch (Suc k) (retries - 1))))
   \<and> (fetch k = NetworkError \<longrightarrow> fetchWithRetry fetch k retries = (None, [FetchCall]))
   \<and> (fetch k = Response status body \<and> \<not> (200 \<le> status \<and> status < 300) \<and>
       \<not> (status = 504 \<and> retries > 0) \<longrightarrow>
      fetchWithRetry fetch k retries = (None, [FetchCall]))
   \<and> (\<forall>ms. Sleep ms \<in> set (snd (fetchWithRetry fetch k retries)) \<longrightarrow> ms = DELAY_BETWEEN_CHECKS_MS)"
proof -
  from fetch_trace_shape [of retries fetch k] obtain m where
    "snd (fetchWithRetry fetch k retries) =
       concat (replicate m [FetchCall, Sleep DELAY_BETWEEN_CHECKS_MS]) @ [FetchCall]"
    by blast
  then have fixed: "\<forall>ms. Sleep ms \<in> set (snd (fetchWithRetry fetch k retries)) \<longrightarrow> ms = DELAY_BETWEEN_CHECKS_MS"
    by (cases m) auto
  from fetch_ok [of fetch k status body retries] fetch_retry [of fetch k body retries]
    fetch_network_error [of fetch k retries] fetch_give_up [of fetch k status body retries] fixed
  show ?thesis by blast
qed

theorem fetchWithRetry_outcomes_witness:
  "fetchWithRetry (\<lambda>i. Response 200 (Some ''{}'')) 0 3 = (Some ''{}'', [FetchCall])
   \<and> fetchWithRetry (\<lambda>i. if i = 0 then Response 504 None else Response 200 (Some ''{}'')) 0 3 =
       (Some ''{}'', [FetchCall, Sleep DELAY_BETWEEN_CHECKS_MS, FetchCall])
   \<and> fetchWithRetry (\<lambda>i. NetworkError :: string response) 0 3 = (None, [FetchCall])
   \<and> fetchWithRetry (\<lambda>i. Response 500 (Some ''{}'')) 0 3 = (None, [FetchCall])
   \<and> fetchWithRetry (\<lambda>i. Response 504 (Some ''{}'')) 3 0 = (None, [FetchCall])"
proof -
  let ?ok = "\<lambda>i::nat. Response 200 (Some ''{}'')"
  let ?once = "\<lambda>i::nat. if i = 0 then Response 504 None else Response 200 (Some ''{}'')"
  have a: "fetchWithRetry ?ok 0 3 = (Some ''{}'', [FetchCall])"
    using fetchWithRetry_outcomes [where fetch = ?ok and k = 0 and status = 200
        and body = "Some ''{}''" and retries = 3]
    by simp
  have b1: "fetchWithRetry ?once (Suc 0) (3 - 1) = (Some ''{}'', [FetchCall])"
    using fetchWithRetry_outcomes [where fetch = ?once and k = "Suc 0" and status = 200
        and body = "Some ''{}''" and retries = "3 - 1"]
    by simp
  have b: "fetchWithRetry ?once 0 3 = (Some ''{}'', [FetchCall, Sleep DELAY_BETWEEN_CHECKS_MS, FetchCall])"
    using fetchWithRetry_outcomes [where fetch = ?once and k = 0 and status = 504
        and body = None and retries = 3] b1
    by simp
  have c: "fetchWithRetry (\<lambda>i. NetworkError :: string response) 0 3 = (None, [FetchCall])"
    using fetchWithRetry_outcomes [where fetch = "\<lambda>i. NetworkError :: string response" and k = 0
        and retries = 3]
    by simp
  have d: "fetchWithRetry (\<lambda>i. Response 500 (Some ''{}'')) 0 3 = (None, [FetchCall])"
    using fetchWithRetry_outcomes [where fetch = "\<lambda>i. Response 500 (Some ''{}'')" and k = 0
        and status = 500 and body = "Some ''{}''" and retries = 3]
    by simp
  have e: "fetchWithRetry (\<lambda>i. Response 504 (Some ''{}'')) 3 0 = (None, [FetchCall])"
    using fetchWithRetry_outcomes [where fetch = "\<lambda>i. Response 504 (Some ''{}'')" and k = 3
        and status = 504 and body = "Some ''{}''" and retries = 0]
    by simp
  from a b c d e show ?thesis by blast
qed

text \<open>
  Claim C9. \<^verbatim>\<open>fetchWithRetry\<close> is total (its recursion decreases \<open>retries\<close>, which must be
  above zero to recurse), calls \<^verbatim>\<open>fetch\<close> at most \<open>retries + 1\<close> times and sleeps at most
  \<open>retries\<close> times; with the default \<open>RETRY_LIMIT\<close> that is at most four calls, and an
  endless streak of 504 responses ends in \<^verbatim>\<open>null\<close> after exactly four calls.
\<close>

theorem fetchWithRetry_bounded:
  "int (count_list (snd (fetchWithRetry fetch k retries)) FetchCall) \<le> max 0 retries + 1
   \<and> int (count_list (snd (fetchWithRetry fetch k retries)) (Sleep DELAY_BETWEEN_CHECKS_MS)) \<le> max 0 retries
   \<and> count_list (snd (fetchWithRetry fetch k RETRY_LIMIT)) FetchCall \<le> 4
   \<and> fetchWithRetry (\<lambda>i. Response 504 None) k RETRY_LIMIT =
       (None, [FetchCall, Sleep DELAY_BETWEEN_CHECKS_MS, FetchCall, Sleep DELAY_BETWEEN_CHECKS_MS,
               FetchCall, Sleep DELAY_BETWEEN_CHECKS_MS, FetchCall])"
proof -
  from fetch_trace_shape [of retries fetch k] obtain m where
    "int m \<le> max 0 retries"
    "snd (fetchWithRetry fetch k retries) =
       concat (replicate m [FetchCall, Sleep DELAY_BETWEEN_CHECKS_MS]) @ [FetchCall]"
    by blast
  then have sleeps: "int (count_list (snd (fetchWithRetry fetch k retries)) (Sleep DELAY_BETWEEN_CHECKS_MS)) \<le> max 0 retries"
    by (simp add: count_replicate_sleeps)
  from fetch_calls_bound [of fetch k RETRY_LIMIT]
  have four: "count_list (snd (fetchWithRetry fetch k RETRY_LIMIT)) FetchCall \<le> 4"
    by (simp add: RETRY_LIMIT_def)
  have "fetchWithRetry (\<lambda>i. Response 504 None) k RETRY_LIMIT =
       (None, [FetchCall, Sleep DELAY_BETWEEN_CHECKS_MS, FetchCall, Sleep DELAY_BETWEEN_CHECKS_MS,
               FetchCall, Sleep DELAY_BETWEEN_CHECKS_MS, FetchCall])"
    by (simp add: RETRY_LIMIT_def fetch_retry fetch_give_up)
  with fetch_calls_bound [of fetch k retries] sleeps four show ?thesis by blast
qed

section \<open>The instance directory and the poll cycle\<close>

lemma push_servers_eq:
  "push_servers serverUUIDs as = serverUUIDs @ map listed (filter (\<lambda>a. nest_id a \<noteq> 1 \<and> nest_id a \<noteq> 6) as)"
  by (induction as arbitrary: serverUUIDs) simp_all

lemma push_servers_append:
  "push_servers (push_servers serverUUIDs as) bs = push_servers serverUUIDs (as @ bs)"
  by (simp add: push_servers_eq)

lemma pages_loop_ends:
  "listing_ends fetchJson k url ps \<Longrightarrow>
   pages_loop fetchJson k (Some url) serverUUIDs =
     Some (push_servers serverUUIDs (concat (map page_data ps)))"
proof (induction arbitrary: serverUUIDs rule: listing_ends.induct)
  case (last_page fetchJson k url p)
  then show ?case
    by (subst pages_loop.simps, simp, subst pages_loop.simps, simp)
next
  case (next_page fetchJson k url p url' ps)
  then show ?case
    by (subst pages_loop.simps) (simp add: push_servers_append)
qed

lemma pages_loop_fails:
  "listing_fails fetchJson k url \<Longrightarrow> pages_loop fetchJson k (Some url) serverUUIDs = Some []"
proof (induction arbitrary: serverUUIDs rule: listing_fails.induct)
  case (no_data fetchJson k url)
  then show ?case by (subst pages_loop.simps) simp
next
  case (later_no_data fetchJson k url p url')
  then show ?case by (subst pages_loop.simps) simp
qed

lemma pages_loop_returns:
  assumes "pages_loop fetchJson k nextPageUrl serverUUIDs = Some servers"
  shows "case nextPageUrl of
      None \<Rightarrow> servers = serverUUIDs
    | Some url \<Rightarrow>
        (\<exists>ps. listing_ends fetchJson k url ps \<and>
              servers = push_servers serverUUIDs (concat (map page_data ps)))
        \<or> (listing_fails fetchJson k url \<and> servers = [])"
proof (rule pages_loop.raw_induct [where P = "\<lambda>f j npu a y. case npu of
      None \<Rightarrow> y = a
    | Some url \<Rightarrow>
        (\<exists>ps. listing_ends f j url ps \<and> y = push_servers a (concat (map page_data ps)))
        \<or> (listing_fails f j url \<and> y = [])", OF _ assms])
  fix loop :: "(nat \<Rightarrow> string \<Rightarrow> page option) \<Rightarrow> nat \<Rightarrow> string option \<Rightarrow> server list \<Rightarrow> server list option"
  fix f j npu a y
  assume ih: "\<And>f j npu a y. loop f j npu a = Some y \<Longrightarrow>
      (case npu of
         None \<Rightarrow> y = a
       | Some url \<Rightarrow>
           (\<exists>ps. listing_ends f j url ps \<and> y = push_servers a (concat (map page_data ps)))
           \<or> (listing_fails f j url \<and> y = []))"
  assume body: "(case npu of
        None \<Rightarrow> Some a
      | Some url \<Rightarrow>
          (case f j url of
             None \<Rightarrow> Some []
           | Some data \<Rightarrow> loop f (Suc j) (next_or_null data) (push_servers a (page_data data)))) = Some y"
  show "case npu of
      None \<Rightarrow> y = a
    | Some url \<Rightarrow>
        (\<exists>ps. listing_ends f j url ps \<and> y = push_servers a (concat (map page_data ps)))
        \<or> (listing_fails f j url \<and> y = [])"
  proof (cases npu)
    case None
    with body show ?thesis by simp
  next
    case url: (Some url)
    show ?thesis
    proof (cases "f j url")
      case None
      with url body have "y = []" by simp
      moreover from None have "listing_fails f j url" by (rule listing_fails.no_data)
      ultimately show ?thesis using url by simp
    next
      case page: (Some p)
      with url body
      have rec: "loop f (Suc j) (next_or_null p) (push_servers a (page_data p)) = Some y"
        by simp
      show ?thesis
      proof (cases "next_or_null p")
        case None
        with ih [OF rec] have "y = push_servers a (concat (map page_data [p]))" by simp
        moreover from page None have "listing_ends f j url [p]"
          by (rule listing_ends.last_page)
        ultimately show ?thesis using url by auto
      next
        case nxt: (Some url')
        with ih [OF rec] consider
          (ends) ps where "listing_ends f (Suc j) url' ps"
            "y = push_servers (push_servers a (page_data p)) (concat (map page_data ps))"
          | (fails) "listing_fails f (Suc j) url'" "y = []"
          by auto
        then show ?thesis
        proof cases
          case ends
          from page nxt ends(1) have "listing_ends f j url (p # ps)"
            by (rule listing_ends.next_page)
          moreover from ends(2) have "y = push_servers a (concat (map page_data (p # ps)))"
            by (simp add: push_servers_append)
          ultimately show ?thesis using url by auto
        next
          case fails
          from page nxt fails(1) have "listing_fails f j url"
            by (rule listing_fails.later_no_data)
          with fails(2) show ?thesis using url by simp
        qed
      qed
    qed
  qed
qed


lemma listing_returns:
  assumes "getAllServersFromAppAPI fetchJson = Some servers"
  shows "(\<exists>ps. listing_ends fetchJson 0 (PANEL_URL @ ''/api/application/servers?page=1'') ps \<and>
            servers = map listed (filter (\<lambda>a. nest_id a \<noteq> 1 \<and> nest_id a \<noteq> 6)
                                   (concat (map page_data ps))))
         \<or> (listing_fails fetchJson 0 (PANEL_URL @ ''/api/application/servers?page=1'') \<and> servers = [])"
  using pages_loop_returns [OF assms [unfolded getAllServersFromAppAPI_def]]
  by (simp add: push_servers_eq)

lemma listing_excludes:
  assumes "getAllServersFromAppAPI fetchJson = Some servers" "s \<in> set servers"
  shows "nest s \<noteq> 1 \<and> nest s \<noteq> 6"
  using listing_returns [OF assms(1)] assms(2) by (auto simp: listed_def)

lemma push_servers_first_eq:
  "push_servers_first serverUUIDs as =
     serverUUIDs @ map listed_first (filter (\<lambda>a. nest_id a \<noteq> 1 \<and> nest_id a \<noteq> 6) as)"
  by (induction as arbitrary: serverUUIDs) simp_all

lemma push_servers_first_append:
  "push_servers_first (push_servers_first serverUUIDs as) bs = push_servers_first serverUUIDs (as @ bs)"
  by (simp add: push_servers_first_eq)

lemma pages_loop_first_ends:
  "listing_ends fetchJson k url ps \<Longrightarrow>
   pages_loop_first fetchJson k (Some url) serverUUIDs =
     Some (push_servers_first serverUUIDs (concat (map page_data ps)))"
proof (induction arbitrary: serverUUIDs rule: listing_ends.induct)
  case (last_page fetchJson k url p)
  then show ?case
    by (subst pages_loop_first.simps, simp, subst pages_loop_first.simps, simp)
next
  case (next_page fetchJson k url p url' ps)
  then show ?case
    by (subst pages_loop_first.simps) (simp add: push_servers_first_append)
qed

lemma pages_loop_first_fails:
  "listing_fails fetchJson k url \<Longrightarrow> pages_loop_first fetchJson k (Some url) serverUUIDs = Some []"
proof (induction arbitrary: serverUUIDs rule: listing_fails.induct)
  case (no_data fetchJson k url)
  then show ?case by (subst pages_loop_first.simps) simp
next
  case (later_no_data fetchJson k url p url')
  then show ?case by (subst pages_loop_first.simps) simp
qed

lemma pages_loop_first_returns:
  assumes "pages_loop_first fetchJson k nextPageUrl serverUUIDs = Some servers"
  shows "case nextPageUrl of
      None \<Rightarrow> servers = serverUUIDs
    | Some url \<Rightarrow>
        (\<exists>ps. listing_ends fetchJson k url ps \<and>
              servers = push_servers_first serverUUIDs (concat (map page_data ps)))
        \<or> (listing_fails fetchJson k url \<and> servers = [])"
proof (rule pages_loop_first.raw_induct [where P = "\<lambda>f j npu a y. case npu of
      None \<Rightarrow> y = a
    | Some url \<Rightarrow>
        (\<exists>ps. listing_ends f j url ps \<and> y = push_servers_first a (concat (map page_data ps)))
        \<or> (listing_fails f j url \<and> y = [])", OF _ assms])
  fix loop :: "(nat \<Rightarrow> string \<Rightarrow> page option) \<Rightarrow> nat \<Rightarrow> string option \<Rightarrow> server_first list \<Rightarrow>
    server_first list option"
  fix f j npu a y
  assume ih: "\<And>f j npu a y. loop f j npu a = Some y \<Longrightarrow>
      (case npu of
         None \<Rightarrow> y = a
       | Some url \<Rightarrow>
           (\<exists>ps. listing_ends f j url ps \<and> y = push_servers_first a (concat (map page_data ps)))
           \<or> (listing_fails f j url \<and> y = []))"
  assume body: "(case npu of
        None \<Rightarrow> Some a
      | Some url \<Rightarrow>
          (case f j url of
             None \<Rightarrow> Some []
           | Some data \<Rightarrow>
               loop f (Suc j) (next_or_null data) (push_servers_first a (page_data data)))) = Some y"
  show "case npu of
      None \<Rightarrow> y = a
    | Some url \<Rightarrow>
        (\<exists>ps. listing_ends f j url ps \<and> y = push_servers_first a (concat (map page_data ps)))
        \<or> (listing_fails f j url \<and> y = [])"
  proof (cases npu)
    case None
    with body show ?thesis by simp
  next
    case url: (Some url)
    show ?thesis
    proof (cases "f j url")
      case None
      with url body have "y = []" by simp
      moreover from None have "listing_fails f j url" by (rule listing_fails.no_data)
      ultimately show ?thesis using url by simp
    next
      case page: (Some p)
      with url body
      have rec: "loop f (Suc j) (next_or_null p) (push_servers_first a (page_data p)) = Some y"
        by simp
      show ?thesis
      proof (cases "next_or_null p")
        case None
        with ih [OF rec] have "y = push_servers_first a (concat (map page_data [p]))" by simp
        moreover from page None have "listing_ends f j url [p]"
          by (rule listing_ends.last_page)
        ultimately show ?thesis using url by auto
      next
        case nxt: (Some url')
        with ih [OF rec] consider
          (ends) ps where "listing_ends f (Suc j) url' ps"
            "y = push_servers_first (push_servers_first a (page_data p)) (concat (map page_data ps))"
          | (fails) "listing_fails f (Suc j) url'" "y = []"
          by auto
        then show ?thesis
        proof cases
          case ends
          from page nxt ends(1) have "listing_ends f j url (p # ps)"
            by (rule listing_ends.next_page)
          moreover from ends(2) have "y = push_servers_first a (concat (map page_data (p # ps)))"
            by (simp add: push_servers_first_append)
          ultimately show ?thesis using url by auto
        next
          case fails
          from page nxt fails(1) have "listing_fails f j url"
            by (rule listing_fails.later_no_data)
          with fails(2) show ?thesis using url by simp
        qed
      qed
    qed
  qed
qed

lemma listing_first_returns:
  assumes "getAllServersFromAppAPI_first fetchJson = Some servers"
  shows "(\<exists>ps. listing_ends fetchJson 0 (PANEL_URL_first @ ''/api/application/servers?page=1'') ps \<and>
            servers = map listed_first (filter (\<lambda>a. nest_id a \<noteq> 1 \<and> nest_id a \<noteq> 6)
                                         (concat (map page_data ps))))
         \<or> (listing_fails fetchJson 0 (PANEL_URL_first @ ''/api/application/servers?page=1'') \<and>
             servers = [])"
  using pages_loop_first_returns [OF assms [unfolded getAllServersFromAppAPI_first_def]]
  by (simp add: push_servers_first_eq)

lemma evaluate_all_append:
  "evaluate_all tr observe (xs @ ys) =
     (fst (evaluate_all (fst (evaluate_all tr observe xs)) observe ys),
      snd (evaluate_all tr observe xs) @
      snd (evaluate_all (fst (evaluate_all tr observe xs)) observe ys))"
  by (induction xs arbitrary: tr) (simp_all add: split_beta)

lemma evaluate_all_at:
  "evaluate_all tr observe (pre @ s # post) =
     (let tr1 = fst (evaluate_all tr observe pre);
          step = getServerResources tr1 (uuid s) (limits s) (nest s) (fst (observe (uuid s)))
                   (fst (snd (observe (uuid s)))) (snd (snd (observe (uuid s))))
      in (fst (evaluate_all (fst step) observe post),
          snd (evaluate_all tr observe pre) @ snd step @ snd (evaluate_all (fst step) observe post)))"
  by (simp add: evaluate_all_append [of tr observe pre] split_beta Let_def)

text \<open>
  Claim C7, tested on the first script: two listings whose single entry differs only in
  its nest (5 and 2) give the same result, an object without any category.
\<close>

theorem first_listing_drops_nest:
  "getAllServersFromAppAPI_first
     (\<lambda>k url.
        if url = ''https://panel.embotic.xyz//api/application/servers?page=1'' then
          Some \<lparr>page_data =
                  [\<lparr>attributes.uuid = ''web'',
                    attributes.limits = \<lparr>cpu = 100, memory = 1024, disk = 2048\<rparr>,
                    attributes.name = ''Web'', nest_id = 5\<rparr>],
                links_next = None\<rparr>
        else None)
    = Some [\<lparr>server_first.uuid = ''web'',
             server_first.limits = \<lparr>cpu = 100, memory = 1024, disk = 2048\<rparr>,
             server_first.name = ''Web''\<rparr>]
   \<and> getAllServersFromAppAPI_first
     (\<lambda>k url.
        if url = ''https://panel.embotic.xyz//api/application/servers?page=1'' then
          Some \<lparr>page_data =
                  [\<lparr>attributes.uuid = ''web'',
                    attributes.limits = \<lparr>cpu = 100, memory = 1024, disk = 2048\<rparr>,
                    attributes.name = ''Web'', nest_id = 2\<rparr>],
                links_next = None\<rparr>
        else None)
    = Some [\<lparr>server_first.uuid = ''web'',
             server_first.limits = \<lparr>cpu = 100, memory = 1024, disk = 2048\<rparr>,
             server_first.name = ''Web''\<rparr>]"
proof -
  let ?url = "''https://panel.embotic.xyz//api/application/servers?page=1''"
  let ?p5 = "\<lparr>page_data =
                  [\<lparr>attributes.uuid = ''web'',
                    attributes.limits = \<lparr>cpu = 100, memory = 1024, disk = 2048\<rparr>,
                    attributes.name = ''Web'', nest_id = 5\<rparr>],
                links_next = None\<rparr>"
  let ?p2 = "\<lparr>page_data =
                  [\<lparr>attributes.uuid = ''web'',
                    attributes.limits = \<lparr>cpu = 100, memory = 1024, disk = 2048\<rparr>,
                    attributes.name = ''Web'', nest_id = 2\<rparr>],
                links_next = None\<rparr>"
  let ?F5 = "\<lambda>(k::nat) url. if url = ?url then Some ?p5 else None"
  let ?F2 = "\<lambda>(k::nat) url. if url = ?url then Some ?p2 else None"
  have "?F5 0 ?url = Some ?p5" and "next_or_null ?p5 = None"
    by (simp_all add: next_or_null_def)
  then have "listing_ends ?F5 0 ?url [?p5]"
    by (rule listing_ends.last_page)
  then have "pages_loop_first ?F5 0 (Some ?url) [] =
      Some (push_servers_first [] (concat (map page_data [?p5])))"
    by (rule pages_loop_first_ends)
  then have five: "getAllServersFromAppAPI_first ?F5 =
      Some [\<lparr>server_first.uuid = ''web'',
              server_first.limits = \<lparr>cpu = 100, memory = 1024, disk = 2048\<rparr>,
              server_first.name = ''Web''\<rparr>]"
    by (simp add: getAllServersFromAppAPI_first_def PANEL_URL_first_def listed_first_def)
  have "?F2 0 ?url = Some ?p2" and "next_or_null ?p2 = None"
    by (simp_all add: next_or_null_def)
  then have "listing_ends ?F2 0 ?url [?p2]"
    by (rule listing_ends.last_page)
  then have "pages_loop_first ?F2 0 (Some ?url) [] =
      Some (push_servers_first [] (concat (map page_data [?p2])))"
    by (rule pages_loop_first_ends)
  then have two: "getAllServersFromAppAPI_first ?F2 =
      Some [\<lparr>server_first.uuid = ''web'',
              server_first.limits = \<lparr>cpu = 100, memory = 1024, disk = 2048\<rparr>,
              server_first.name = ''Web''\<rparr>]"
    by (simp add: getAllServersFromAppAPI_first_def PANEL_URL_first_def listed_first_def)
  from five two show ?thesis by (rule conjI)
qed

text \<open>
  Claim C7, as the code has it. In both scripts the listing starts at page 1 and follows
  the \<^verbatim>\<open>next\<close> links. When every page is fetched and the last has no link, it returns
  the entries of all these pages, in order, without those of nest 1 or 6. When a fetch on
  the way yields no data it returns the empty list, whatever was collected before. It
  returns in no other way, so a returned listing never holds an instance of nest 1 or 6.
  The second script gives each entry as \<open>listed\<close> does (uuid, limits, name, nest); the
  first as \<open>listed_first\<close> does (uuid, limits, name), which does not depend on the nest.
\<close>

theorem directory_listing:
  "(listing_ends fetchJson 0 (PANEL_URL @ ''/api/application/servers?page=1'') ps \<longrightarrow>
      getAllServersFromAppAPI fetchJson =
        Some (map listed (filter (\<lambda>a. nest_id a \<noteq> 1 \<and> nest_id a \<noteq> 6)
                            (concat (map page_data ps)))))
   \<and> (listing_fails fetchJson 0 (PANEL_URL @ ''/api/application/servers?page=1'') \<longrightarrow>
      getAllServersFromAppAPI fetchJson = Some [])
   \<and> (getAllServersFromAppAPI fetchJson = Some servers \<longrightarrow>
      (\<exists>ps. listing_ends fetchJson 0 (PANEL_URL @ ''/api/application/servers?page=1'') ps \<and>
            servers = map listed (filter (\<lambda>a. nest_id a \<noteq> 1 \<and> nest_id a \<noteq> 6)
                                   (concat (map page_data ps))))
      \<or> (listing_fails fetchJson 0 (PANEL_URL @ ''/api/application/servers?page=1'') \<and> servers = []))
   \<and> (getAllServersFromAppAPI fetchJson = Some servers \<longrightarrow>
      (\<forall>s \<in> set servers. nest s \<noteq> 1 \<and> nest s \<noteq> 6))
   \<and> uuid (listed a) = attributes.uuid a \<and> limits (listed a) = attributes.limits a
   \<and> name (listed a) = attributes.name a \<and> nest (listed a) = nest_id a
   \<and> (listing_ends fetchJson 0 (PANEL_URL_first @ ''/api/application/servers?page=1'') ps \<longrightarrow>
      getAllServersFromAppAPI_first fetchJson =
        Some (map listed_first (filter (\<lambda>a. nest_id a \<noteq> 1 \<and> nest_id a \<noteq> 6)
                                  (concat (map page_data ps)))))
   \<and> (listing_fails fetchJson 0 (PANEL_URL_first @ ''/api/application/servers?page=1'') \<longrightarrow>
      getAllServersFromAppAPI_first fetchJson = Some [])
   \<and> (getAllServersFromAppAPI_first fetchJson = Some servers_first \<longrightarrow>
      (\<exists>ps. listing_ends fetchJson 0 (PANEL_URL_first @ ''/api/application/servers?page=1'') ps \<and>
            servers_first = map listed_first (filter (\<lambda>a. nest_id a \<noteq> 1 \<and> nest_id a \<noteq> 6)
                                               (concat (map page_data ps))))
      \<or> (listing_fails fetchJson 0 (PANEL_URL_first @ ''/api/application/servers?page=1'') \<and>
          servers_first = []))
   \<and> server_first.uuid (listed_first a) = attributes.uuid a
   \<and> server_first.limits (listed_first a) = attributes.limits a
   \<and> server_first.name (listed_first a) = attributes.name a
   \<and> listed_first (a\<lparr>nest_id := c\<rparr>) = listed_first a"
proof -
  have ends: "listing_ends fetchJson 0 (PANEL_URL @ ''/api/application/servers?page=1'') ps \<longrightarrow>
      getAllServersFromAppAPI fetchJson =
        Some (map listed (filter (\<lambda>a. nest_id a \<noteq> 1 \<and> nest_id a \<noteq> 6)
                            (concat (map page_data ps))))"
    by (simp add: getAllServersFromAppAPI_def pages_loop_ends push_servers_eq)
  have fails: "listing_fails fetchJson 0 (PANEL_URL @ ''/api/application/servers?page=1'') \<longrightarrow>
      getAllServersFromAppAPI fetchJson = Some []"
    by (simp add: getAllServersFromAppAPI_def pages_loop_fails)
  have fields: "uuid (listed a) = attributes.uuid a \<and> limits (listed a) = attributes.limits a
      \<and> name (listed a) = attributes.name a \<and> nest (listed a) = nest_id a"
    by (simp add: listed_def)
  have ends_first:
    "listing_ends fetchJson 0 (PANEL_URL_first @ ''/api/application/servers?page=1'') ps \<longrightarrow>
      getAllServersFromAppAPI_first fetchJson =
        Some (map listed_first (filter (\<lambda>a. nest_id a \<noteq> 1 \<and> nest_id a \<noteq> 6)
                                  (concat (map page_data ps))))"
    by (simp add: getAllServersFromAppAPI_first_def pages_loop_first_ends push_servers_first_eq)
  have fails_first:
    "listing_fails fetchJson 0 (PANEL_URL_first @ ''/api/application/servers?page=1'') \<longrightarrow>
      getAllServersFromAppAPI_first fetchJson = Some []"
    by (simp add: getAllServersFromAppAPI_first_def pages_loop_first_fails)
  have fields_first: "server_first.uuid (listed_first a) = attributes.uuid a
      \<and> server_first.limits (listed_first a) = attributes.limits a
      \<and> server_first.name (listed_first a) = attributes.name a
      \<and> listed_first (a\<lparr>nest_id := c\<rparr>) = listed_first a"
    by (simp add: listed_first_def)
  from ends fails listing_returns [of fetchJson servers] listing_excludes [of fetchJson servers]
    fields ends_first fails_first listing_first_returns [of fetchJson servers_first] fields_first
  show ?thesis by blast
qed

theorem directory_listing_witness:
  "getAllServersFromAppAPI
     (\<lambda>k url.
        if url = ''/api/application/servers?page=1'' then
          Some \<lparr>page_data =
                  [\<lparr>attributes.uuid = ''web'', attributes.limits = \<lparr>cpu = 100, memory = 1024, disk = 2048\<rparr>,
                    attributes.name = ''Web'', nest_id = 5\<rparr>,
                   \<lparr>attributes.uuid = ''game'', attributes.limits = \<lparr>cpu = 200, memory = 4096, disk = 8192\<rparr>,
                    attributes.name = ''Game'', nest_id = 1\<rparr>],
                links_next = Some ''/api/application/servers?page=2''\<rparr>
        else if url = ''/api/application/servers?page=2'' then
          Some \<lparr>page_data =
                  [\<lparr>attributes.uuid = ''mc'', attributes.limits = \<lparr>cpu = 0, memory = 0, disk = 0\<rparr>,
                    attributes.name = ''Mc'', nest_id = 6\<rparr>,
                   \<lparr>attributes.uuid = ''bot'', attributes.limits = \<lparr>cpu = 50, memory = 512, disk = 1024\<rparr>,
                    attributes.name = ''Bot'', nest_id = 2\<rparr>],
                links_next = None\<rparr>
        else None)
    = Some [\<lparr>uuid = ''web'', limits = \<lparr>cpu = 100, memory = 1024, disk = 2048\<rparr>,
             name = ''Web'', nest = 5\<rparr>,
            \<lparr>uuid = ''bot'', limits = \<lparr>cpu = 50, memory = 512, disk = 1024\<rparr>,
             name = ''Bot'', nest = 2\<rparr>]
   \<and> getAllServersFromAppAPI
     (\<lambda>k url.
        if url = ''/api/application/servers?page=1'' then
          Some \<lparr>page_data =
                  [\<lparr>attributes.uuid = ''web'', attributes.limits = \<lparr>cpu = 100, memory = 1024, disk = 2048\<rparr>,
                    attributes.name = ''Web'', nest_id = 5\<rparr>],
                links_next = Some ''/api/application/servers?page=2''\<rparr>
        else None)
    = Some []
   \<and> getAllServersFromAppAPI_first
     (\<lambda>k url.
        if url = ''https://panel.embotic.xyz//api/application/servers?page=1'' then
          Some \<lparr>page_data =
                  [\<lparr>attributes.uuid = ''web'', attributes.limits = \<lparr>cpu = 100, memory = 1024, disk = 2048\<rparr>,
                    attributes.name = ''Web'', nest_id = 5\<rparr>,
                   \<lparr>attributes.uuid = ''game'', attributes.limits = \<lparr>cpu = 200, memory = 4096, disk = 8192\<rparr>,
                    attributes.name = ''Game'', nest_id = 1\<rparr>],
                links_next = Some ''https://panel.embotic.xyz/api/application/servers?page=2''\<rparr>
        else if url = ''https://panel.embotic.xyz/api/application/servers?page=2'' then
          Some \<lparr>page_data =
                  [\<lparr>attributes.uuid = ''mc'', attributes.limits = \<lparr>cpu = 0, memory = 0, disk = 0\<rparr>,
                    attributes.name = ''Mc'', nest_id = 6\<rparr>,
                   \<lparr>attributes.uuid = ''bot'', attributes.limits = \<lparr>cpu = 50, memory = 512, disk = 1024\<rparr>,
                    attributes.name = ''Bot'', nest_id = 2\<rparr>],
                links_next = None\<rparr>
        else None)
    = Some [\<lparr>server_first.uuid = ''web'',
             server_first.limits = \<lparr>cpu = 100, memory = 1024, disk = 2048\<rparr>,
             server_first.name = ''Web''\<rparr>,
            \<lparr>server_first.uuid = ''bot'',
             server_first.limits = \<lparr>cpu = 50, memory = 512, disk = 1024\<rparr>,
             server_first.name = ''Bot''\<rparr>]
   \<and> getAllServersFromAppAPI_first
     (\<lambda>k url.
        if url = ''https://panel.embotic.xyz//api/application/servers?page=1'' then
          Some \<lparr>page_data =
                  [\<lparr>attributes.uuid = ''web'', attributes.limits = \<lparr>cpu = 100, memory = 1024, disk = 2048\<rparr>,
                    attributes.name = ''Web'', nest_id = 5\<rparr>],
                links_next = Some ''https://panel.embotic.xyz/api/application/servers?page=2''\<rparr>
        else None)
    = Some []"
proof -
  let ?web = "\<lparr>attributes.uuid = ''web'', attributes.limits = \<lparr>cpu = 100, memory = 1024, disk = 2048\<rparr>,
               attributes.name = ''Web'', nest_id = 5\<rparr>"
  let ?game = "\<lparr>attributes.uuid = ''game'', attributes.limits = \<lparr>cpu = 200, memory = 4096, disk = 8192\<rparr>,
                attributes.name = ''Game'', nest_id = 1\<rparr>"
  let ?mc = "\<lparr>attributes.uuid = ''mc'', attributes.limits = \<lparr>cpu = 0, memory = 0, disk = 0\<rparr>,
              attributes.name = ''Mc'', nest_id = 6\<rparr>"
  let ?bot = "\<lparr>attributes.uuid = ''bot'', attributes.limits = \<lparr>cpu = 50, memory = 512, disk = 1024\<rparr>,
               attributes.name = ''Bot'', nest_id = 2\<rparr>"
  let ?p1 = "\<lparr>page_data = [?web, ?game], links_next = Some ''/api/application/servers?page=2''\<rparr>"
  let ?p2 = "\<lparr>page_data = [?mc, ?bot], links_next = None\<rparr>"
  let ?q1 = "\<lparr>page_data = [?web], links_next = Some ''/api/application/servers?page=2''\<rparr>"
  let ?F = "\<lambda>(k::nat) url.
        if url = ''/api/application/servers?page=1'' then Some ?p1
        else if url = ''/api/application/servers?page=2'' then Some ?p2
        else None"
  let ?G = "\<lambda>(k::nat) url.
        if url = ''/api/application/servers?page=1'' then Some ?q1 else None"
  let ?u1 = "''https://panel.embotic.xyz//api/application/servers?page=1''"
  let ?u2 = "''https://panel.embotic.xyz/api/application/servers?page=2''"
  let ?P1 = "\<lparr>page_data = [?web, ?game], links_next = Some ?u2\<rparr>"
  let ?Q1 = "\<lparr>page_data = [?web], links_next = Some ?u2\<rparr>"
  let ?F1 = "\<lambda>(k::nat) url. if url = ?u1 then Some ?P1 else if url = ?u2 then Some ?p2 else None"
  let ?G1 = "\<lambda>(k::nat) url. if url = ?u1 then Some ?Q1 else None"
  have f1: "?F 0 ''/api/application/servers?page=1'' = Some ?p1"
    and f2: "next_or_null ?p1 = Some ''/api/application/servers?page=2''"
    and f3: "?F (Suc 0) ''/api/application/servers?page=2'' = Some ?p2"
    and f4: "next_or_null ?p2 = None"
    by (simp_all add: next_or_null_def)
  from f3 f4 have "listing_ends ?F (Suc 0) ''/api/application/servers?page=2'' [?p2]"
    by (rule listing_ends.last_page)
  with f1 f2 have "listing_ends ?F 0 ''/api/application/servers?page=1'' [?p1, ?p2]"
    by (rule listing_ends.next_page)
  then have ends: "listing_ends ?F 0 (PANEL_URL @ ''/api/application/servers?page=1'') [?p1, ?p2]"
    by (simp add: PANEL_URL_def)
  have g1: "?G 0 ''/api/application/servers?page=1'' = Some ?q1"
    and g2: "next_or_null ?q1 = Some ''/api/application/servers?page=2''"
    by (simp_all add: next_or_null_def)
  have "listing_fails ?G (Suc 0) ''/api/application/servers?page=2''"
    by (rule listing_fails.no_data) simp
  with g1 g2 have "listing_fails ?G 0 ''/api/application/servers?page=1''"
    by (rule listing_fails.later_no_data)
  then have fails: "listing_fails ?G 0 (PANEL_URL @ ''/api/application/servers?page=1'')"
    by (simp add: PANEL_URL_def)
  have h1: "?F1 0 ?u1 = Some ?P1" and h2: "next_or_null ?P1 = Some ?u2"
    and h3: "?F1 (Suc 0) ?u2 = Some ?p2"
    by (simp_all add: next_or_null_def)
  from h3 f4 have "listing_ends ?F1 (Suc 0) ?u2 [?p2]"
    by (rule listing_ends.last_page)
  with h1 h2 have "listing_ends ?F1 0 ?u1 [?P1, ?p2]"
    by (rule listing_ends.next_page)
  then have ends_first:
    "listing_ends ?F1 0 (PANEL_URL_first @ ''/api/application/servers?page=1'') [?P1, ?p2]"
    by (simp add: PANEL_URL_first_def)
  have i1: "?G1 0 ?u1 = Some ?Q1" and i2: "next_or_null ?Q1 = Some ?u2"
    by (simp_all add: next_or_null_def)
  have "listing_fails ?G1 (Suc 0) ?u2"
    by (rule listing_fails.no_data) simp
  with i1 i2 have "listing_fails ?G1 0 ?u1"
    by (rule listing_fails.later_no_data)
  then have fails_first:
    "listing_fails ?G1 0 (PANEL_URL_first @ ''/api/application/servers?page=1'')"
    by (simp add: PANEL_URL_first_def)
  from directory_listing [where fetchJson = ?F and ps = "[?p1, ?p2]"] ends
  have a: "getAllServersFromAppAPI ?F =
      Some (map listed (filter (\<lambda>a. nest_id a \<noteq> 1 \<and> nest_id a \<noteq> 6)
                          (concat (map page_data [?p1, ?p2]))))"
    by blast
  from directory_listing [where fetchJson = ?G] fails
  have b: "getAllServersFromAppAPI ?G = Some []"
    by blast
  from directory_listing [where fetchJson = ?F1 and ps = "[?P1, ?p2]"] ends_first
  have c: "getAllServersFromAppAPI_first ?F1 =
      Some (map listed_first (filter (\<lambda>a. nest_id a \<noteq> 1 \<and> nest_id a \<noteq> 6)
                                (concat (map page_data [?P1, ?p2]))))"
    by blast
  from directory_listing [where fetchJson = ?G1] fails_first
  have d: "getAllServersFromAppAPI_first ?G1 = Some []"
    by blast
  from a b c d show ?thesis by (simp add: listed_def listed_first_def)
qed

lemma kill_iff:
  "KillServer u \<in> set (snd (getServerResources tr u lims n d t0 t1)) \<longleftrightarrow>
     (\<exists>res. d = Some res \<and> over_limit lims res \<and>
        elapsedTime t1 (tracked tr u t0) \<ge> customKillThresholdSeconds n)"
proof (cases d)
  case None
  then show ?thesis by (simp add: getServerResources_def)
next
  case (Some res)
  show ?thesis
  proof (cases "over_limit lims res")
    case True
    with Some show ?thesis by (simp add: gsr_breach Let_def)
  next
    case False
    with Some show ?thesis by (simp add: getServerResources_def)
  qed
qed

text \<open>
  Claim C5, tested on a listing whose only entry has nest 1: the directory delivers
  nothing, so a cycle leaves the tracker as it was and emits no effect, although the
  record is 18000 seconds old and the snapshot over the limit; the evaluation itself,
  called with nest 1 on the same record, would kill the instance.
\<close>

theorem special_nest_not_listed:
  "getAllServersFromAppAPI
     (\<lambda>k url.
        if url = ''/api/application/servers?page=1'' then
          Some \<lparr>page_data =
                  [\<lparr>attributes.uuid = ''game'', attributes.limits = \<lparr>cpu = 100, memory = 0, disk = 0\<rparr>,
                    attributes.name = ''Game'', nest_id = 1\<rparr>],
                links_next = None\<rparr>
        else None)
    = Some []
   \<and> poll_cycle
     [''game'' \<mapsto> \<lparr>startTime = 0, reported = True, isOverLimit = Some True\<rparr>]
     (\<lambda>k url.
        if url = ''/api/application/servers?page=1'' then
          Some \<lparr>page_data =
                  [\<lparr>attributes.uuid = ''game'', attributes.limits = \<lparr>cpu = 100, memory = 0, disk = 0\<rparr>,
                    attributes.name = ''Game'', nest_id = 1\<rparr>],
                links_next = None\<rparr>
        else None)
     (\<lambda>u. (Some \<lparr>cpu_absolute = 150, memory_bytes = 0, disk_bytes = 0\<rparr>, 18000000, 18000000))
    = Some ([''game'' \<mapsto> \<lparr>startTime = 0, reported = True, isOverLimit = Some True\<rparr>], [])
   \<and> getServerResources
     [''game'' \<mapsto> \<lparr>startTime = 0, reported = True, isOverLimit = Some True\<rparr>]
     ''game'' \<lparr>cpu = 100, memory = 0, disk = 0\<rparr> 1
     (Some \<lparr>cpu_absolute = 150, memory_bytes = 0, disk_bytes = 0\<rparr>) 18000000 18000000
    = (Map.empty, [KillServer ''game'', LogToDiscord ''game''])"
proof -
  let ?game = "\<lparr>attributes.uuid = ''game'', attributes.limits = \<lparr>cpu = 100, memory = 0, disk = 0\<rparr>,
                attributes.name = ''Game'', nest_id = 1\<rparr>"
  let ?p = "\<lparr>page_data = [?game], links_next = None\<rparr>"
  let ?F = "\<lambda>(k::nat) url. if url = ''/api/application/servers?page=1'' then Some ?p else None"
  have "?F 0 ''/api/application/servers?page=1'' = Some ?p" and "next_or_null ?p = None"
    by (simp_all add: next_or_null_def)
  then have "listing_ends ?F 0 ''/api/application/servers?page=1'' [?p]"
    by (rule listing_ends.last_page)
  then have "pages_loop ?F 0 (Some ''/api/application/servers?page=1'') [] =
      Some (push_servers [] (concat (map page_data [?p])))"
    by (rule pages_loop_ends)
  then have listing: "getAllServersFromAppAPI ?F = Some []"
    by (simp add: getAllServersFromAppAPI_def PANEL_URL_def)
  then have cycle: "poll_cycle
      [''game'' \<mapsto> \<lparr>startTime = 0, reported = True, isOverLimit = Some True\<rparr>] ?F
      (\<lambda>u. (Some \<lparr>cpu_absolute = 150, memory_bytes = 0, disk_bytes = 0\<rparr>, 18000000, 18000000))
    = Some ([''game'' \<mapsto> \<lparr>startTime = 0, reported = True, isOverLimit = Some True\<rparr>], [])"
    by (simp add: poll_cycle_def)
  have direct: "getServerResources
     [''game'' \<mapsto> \<lparr>startTime = 0, reported = True, isOverLimit = Some True\<rparr>]
     ''game'' \<lparr>cpu = 100, memory = 0, disk = 0\<rparr> 1
     (Some \<lparr>cpu_absolute = 150, memory_bytes = 0, disk_bytes = 0\<rparr>) 18000000 18000000
    = (Map.empty, [KillServer ''game'', LogToDiscord ''game''])"
    by (simp add: eval_defs)
  from listing cycle direct show ?thesis by blast
qed

text \<open>
  Claim C5, as the code has it. The evaluation takes 18000 seconds as kill threshold
  for nest 1 and 6 and 10800 seconds for every other nest; it kills exactly when the
  snapshot is over the limit and the elapsed time has reached that threshold; it
  notifies at 7200 seconds whatever the nest. The directory leaves out nest 1 and 6. A
  poll cycle evaluates each instance the directory delivers, in listing order, by
  \<open>getServerResources\<close> with the instance's own limits and nest on the tracker the
  preceding evaluations left; that nest is neither 1 nor 6, so the instance is killed
  exactly when it is over the limit and 10800 seconds have elapsed.
\<close>

theorem kill_threshold_by_nest:
  "(n = 1 \<or> n = 6 \<longrightarrow> customKillThresholdSeconds n = 18000)
   \<and> (n \<noteq> 1 \<and> n \<noteq> 6 \<longrightarrow> customKillThresholdSeconds n = 10800)
   \<and> (KillServer u \<in> set (snd (getServerResources tr u lims n d t0 t1)) \<longleftrightarrow>
        (\<exists>res. d = Some res \<and> over_limit lims res \<and>
           elapsedTime t1 (tracked tr u t0) \<ge> customKillThresholdSeconds n))
   \<and> (NotifyServerOverLimit u \<in> set (snd (getServerResources tr u lims n d t0 t1)) \<longleftrightarrow>
        (\<exists>res. d = Some res \<and> over_limit lims res \<and>
           elapsedTime t1 (tracked tr u t0) \<ge> 7200 \<and> \<not> reported (tracked tr u t0)))
   \<and> (getAllServersFromAppAPI fetchJson = Some servers \<longrightarrow>
        (\<forall>s \<in> set servers. nest s \<noteq> 1 \<and> nest s \<noteq> 6 \<and>
           customKillThresholdSeconds (nest s) = 10800))
   \<and> (getAllServersFromAppAPI fetchJson = Some [] \<longrightarrow>
        poll_cycle tr fetchJson observe = Some (tr, []))
   \<and> (getAllServersFromAppAPI fetchJson = Some (pre @ s # post) \<longrightarrow>
        (let tr1 = fst (evaluate_all tr observe pre);
             data = fst (observe (uuid s));
             now_created = fst (snd (observe (uuid s)));
             now_checked = snd (snd (observe (uuid s)));
             step = getServerResources tr1 (uuid s) (limits s) (nest s) data now_created now_checked
         in poll_cycle tr fetchJson observe =
              Some (fst (evaluate_all (fst step) observe post),
                    snd (evaluate_all tr observe pre) @ snd step @
                    snd (evaluate_all (fst step) observe post))
            \<and> nest s \<noteq> 1 \<and> nest s \<noteq> 6
            \<and> (KillServer (uuid s) \<in> set (snd step) \<longleftrightarrow>
                 (\<exists>res. data = Some res \<and> over_limit (limits s) res \<and>
                    elapsedTime now_checked (tracked tr1 (uuid s) now_created) \<ge> 10800))))"
proof -
  have special: "n = 1 \<or> n = 6 \<longrightarrow> customKillThresholdSeconds n = 18000"
    and default: "n \<noteq> 1 \<and> n \<noteq> 6 \<longrightarrow> customKillThresholdSeconds n = 10800"
    by (simp_all add: customKillThresholdSeconds_def isSpecialNest_def KILL_THRESHOLD_SECONDS_def)
  have listing: "getAllServersFromAppAPI fetchJson = Some servers \<longrightarrow>
        (\<forall>s \<in> set servers. nest s \<noteq> 1 \<and> nest s \<noteq> 6 \<and>
           customKillThresholdSeconds (nest s) = 10800)"
    using listing_excludes [of fetchJson servers]
    by (auto simp: customKillThresholdSeconds_def isSpecialNest_def KILL_THRESHOLD_SECONDS_def)
  have empty_cycle: "getAllServersFromAppAPI fetchJson = Some [] \<longrightarrow>
        poll_cycle tr fetchJson observe = Some (tr, [])"
    by (simp add: poll_cycle_def)
  have each: "let tr1 = fst (evaluate_all tr observe pre);
             data = fst (observe (uuid s));
             now_created = fst (snd (observe (uuid s)));
             now_checked = snd (snd (observe (uuid s)));
             step = getServerResources tr1 (uuid s) (limits s) (nest s) data now_created now_checked
         in poll_cycle tr fetchJson observe =
              Some (fst (evaluate_all (fst step) observe post),
                    snd (evaluate_all tr observe pre) @ snd step @
                    snd (evaluate_all (fst step) observe post))
            \<and> nest s \<noteq> 1 \<and> nest s \<noteq> 6
            \<and> (KillServer (uuid s) \<in> set (snd step) \<longleftrightarrow>
                 (\<exists>res. data = Some res \<and> over_limit (limits s) res \<and>
                    elapsedTime now_checked (tracked tr1 (uuid s) now_created) \<ge> 10800))"
    if delivered: "getAllServersFromAppAPI fetchJson = Some (pre @ s # post)"
  proof -
    from listing_excludes [OF delivered, of s] have nest: "nest s \<noteq> 1 \<and> nest s \<noteq> 6"
      by simp
    then have threshold: "customKillThresholdSeconds (nest s) = 10800"
      by (simp add: customKillThresholdSeconds_def isSpecialNest_def KILL_THRESHOLD_SECONDS_def)
    from delivered have cycle: "poll_cycle tr fetchJson observe =
        Some (evaluate_all tr observe (pre @ s # post))"
      by (simp add: poll_cycle_def)
    show ?thesis
      unfolding Let_def cycle kill_iff threshold
      using nest by (simp add: evaluate_all_at Let_def)
  qed
  note kills = kill_iff [of u tr lims n d t0 t1]
  note notifies = notify_iff [of u tr lims n d t0 t1, unfolded REPORT_THRESHOLD_SECONDS_def]
  from each have delivered_each: "getAllServersFromAppAPI fetchJson = Some (pre @ s # post) \<longrightarrow>
        (let tr1 = fst (evaluate_all tr observe pre);
             data = fst (observe (uuid s));
             now_created = fst (snd (observe (uuid s)));
             now_checked = snd (snd (observe (uuid s)));
             step = getServerResources tr1 (uuid s) (limits s) (nest s) data now_created now_checked
         in poll_cycle tr fetchJson observe =
              Some (fst (evaluate_all (fst step) observe post),
                    snd (evaluate_all tr observe pre) @ snd step @
                    snd (evaluate_all (fst step) observe post))
            \<and> nest s \<noteq> 1 \<and> nest s \<noteq> 6
            \<and> (KillServer (uuid s) \<in> set (snd step) \<longleftrightarrow>
                 (\<exists>res. data = Some res \<and> over_limit (limits s) res \<and>
                    elapsedTime now_checked (tracked tr1 (uuid s) now_created) \<ge> 10800)))"
    by (rule impI)
  show ?thesis
    by (intro conjI) (rule special default kills notifies listing empty_cycle delivered_each)+
qed

theorem kill_threshold_by_nest_witness:
  "customKillThresholdSeconds 1 = 18000
   \<and> customKillThresholdSeconds 6 = 18000
   \<and> customKillThresholdSeconds 5 = 10800
   \<and> KillServer ''game'' \<notin> set (snd (getServerResources
        [''game'' \<mapsto> \<lparr>startTime = 0, reported = True, isOverLimit = Some True\<rparr>]
        ''game'' \<lparr>cpu = 100, memory = 0, disk = 0\<rparr> 1
        (Some \<lparr>cpu_absolute = 150, memory_bytes = 0, disk_bytes = 0\<rparr>) 10800000 10800000))
   \<and> KillServer ''game'' \<in> set (snd (getServerResources
        [''game'' \<mapsto> \<lparr>startTime = 0, reported = True, isOverLimit = Some True\<rparr>]
        ''game'' \<lparr>cpu = 100, memory = 0, disk = 0\<rparr> 1
        (Some \<lparr>cpu_absolute = 150, memory_bytes = 0, disk_bytes = 0\<rparr>) 18000000 18000000))
   \<and> KillServer ''game'' \<in> set (snd (getServerResources
        [''game'' \<mapsto> \<lparr>startTime = 0, reported = True, isOverLimit = Some True\<rparr>]
        ''game'' \<lparr>cpu = 100, memory = 0, disk = 0\<rparr> 5
        (Some \<lparr>cpu_absolute = 150, memory_bytes = 0, disk_bytes = 0\<rparr>) 10800000 10800000))
   \<and> getAllServersFromAppAPI
        (\<lambda>k url.
           if url = ''/api/application/servers?page=1'' then
             Some \<lparr>page_data =
                     [\<lparr>attributes.uuid = ''web'', attributes.limits = \<lparr>cpu = 100, memory = 0, disk = 0\<rparr>,
                       attributes.name = ''Web'', nest_id = 5\<rparr>,
                      \<lparr>attributes.uuid = ''game'', attributes.limits = \<lparr>cpu = 100, memory = 0, disk = 0\<rparr>,
                       attributes.name = ''Game'', nest_id = 1\<rparr>],
                   links_next = None\<rparr>
           else None)
      = Some [\<lparr>uuid = ''web'', limits = \<lparr>cpu = 100, memory = 0, disk = 0\<rparr>,
               name = ''Web'', nest = 5\<rparr>]
   \<and> customKillThresholdSeconds
        (nest \<lparr>uuid = ''web'', limits = \<lparr>cpu = 100, memory = 0, disk = 0\<rparr>,
               name = ''Web'', nest = 5\<rparr>) = 10800
   \<and> poll_cycle
        [''web'' \<mapsto> \<lparr>startTime = 0, reported = True, isOverLimit = Some True\<rparr>,
         ''game'' \<mapsto> \<lparr>startTime = 0, reported = True, isOverLimit = Some True\<rparr>]
        (\<lambda>k url.
           if url = ''/api/application/servers?page=1'' then
             Some \<lparr>page_data =
                     [\<lparr>attributes.uuid = ''web'', attributes.limits = \<lparr>cpu = 100, memory = 0, disk = 0\<rparr>,
                       attributes.name = ''Web'', nest_id = 5\<rparr>,
                      \<lparr>attributes.uuid = ''game'', attributes.limits = \<lparr>cpu = 100, memory = 0, disk = 0\<rparr>,
                       attributes.name = ''Game'', nest_id = 1\<rparr>],
                   links_next = None\<rparr>
           else None)
        (\<lambda>u. (Some \<lparr>cpu_absolute = 150, memory_bytes = 0, disk_bytes = 0\<rparr>, 10800000, 10800000))
      = Some ([''game'' \<mapsto> \<lparr>startTime = 0, reported = True, isOverLimit = Some True\<rparr>],
              [KillServer ''web'', LogToDiscord ''web''])
   \<and> poll_cycle Map.empty
        (\<lambda>k url.
           if url = ''/api/application/servers?page=1'' then
             Some \<lparr>page_data =
                     [\<lparr>attributes.uuid = ''game'', attributes.limits = \<lparr>cpu = 100, memory = 0, disk = 0\<rparr>,
                       attributes.name = ''Game'', nest_id = 1\<rparr>],
                   links_next = None\<rparr>
           else None)
        (\<lambda>u. (Some \<lparr>cpu_absolute = 150, memory_bytes = 0, disk_bytes = 0\<rparr>, 10800000, 10800000))
      = Some (Map.empty, [])"
proof -
  let ?L = "\<lparr>cpu = 100, memory = 0, disk = 0\<rparr>"
  let ?R = "\<lparr>cpu_absolute = 150, memory_bytes = 0, disk_bytes = 0\<rparr>"
  let ?r = "\<lparr>startTime = 0, reported = True, isOverLimit = Some True\<rparr>"
  let ?tr = "[''game'' \<mapsto> ?r]"
  let ?both = "[''web'' \<mapsto> ?r, ''game'' \<mapsto> ?r]"
  let ?web = "\<lparr>attributes.uuid = ''web'', attributes.limits = ?L,
               attributes.name = ''Web'', nest_id = 5\<rparr>"
  let ?game = "\<lparr>attributes.uuid = ''game'', attributes.limits = ?L,
                attributes.name = ''Game'', nest_id = 1\<rparr>"
  let ?p = "\<lparr>page_data = [?web, ?game], links_next = None\<rparr>"
  let ?q = "\<lparr>page_data = [?game], links_next = None\<rparr>"
  let ?F = "\<lambda>(k::nat) url. if url = ''/api/application/servers?page=1'' then Some ?p else None"
  let ?G = "\<lambda>(k::nat) url. if url = ''/api/application/servers?page=1'' then Some ?q else None"
  let ?W = "\<lparr>uuid = ''web'', limits = ?L, name = ''Web'', nest = 5\<rparr>"
  let ?obs = "\<lambda>u::string. (Some ?R, 10800000 :: int, 10800000 :: int)"
  have "?F 0 ''/api/application/servers?page=1'' = Some ?p" and "next_or_null ?p = None"
    by (simp_all add: next_or_null_def)
  then have "listing_ends ?F 0 ''/api/application/servers?page=1'' [?p]"
    by (rule listing_ends.last_page)
  then have "pages_loop ?F 0 (Some ''/api/application/servers?page=1'') [] =
      Some (push_servers [] (concat (map page_data [?p])))"
    by (rule pages_loop_ends)
  then have listing: "getAllServersFromAppAPI ?F = Some [?W]"
    by (simp add: getAllServersFromAppAPI_def PANEL_URL_def listed_def)
  have "?G 0 ''/api/application/servers?page=1'' = Some ?q" and "next_or_null ?q = None"
    by (simp_all add: next_or_null_def)
  then have "listing_ends ?G 0 ''/api/application/servers?page=1'' [?q]"
    by (rule listing_ends.last_page)
  then have "pages_loop ?G 0 (Some ''/api/application/servers?page=1'') [] =
      Some (push_servers [] (concat (map page_data [?q])))"
    by (rule pages_loop_ends)
  then have empty_listing: "getAllServersFromAppAPI ?G = Some []"
    by (simp add: getAllServersFromAppAPI_def PANEL_URL_def)
  have over: "over_limit ?L ?R"
    by (simp add: over_limit_def cpuLimit_def cpuUsage_def)
  have el3: "elapsedTime 10800000 (tracked ?tr ''game'' 10800000) = 10800"
    and el5: "elapsedTime 18000000 (tracked ?tr ''game'' 18000000) = 18000"
    by (simp_all add: elapsedTime_def tracked_def)
  note at3 = kill_threshold_by_nest [where n = 1 and u = "''game''" and tr = ?tr and lims = ?L
      and d = "Some ?R" and ?t0.0 = 10800000 and ?t1.0 = 10800000 and fetchJson = ?F
      and servers = "[?W]"]
  note at5 = kill_threshold_by_nest [where n = 1 and u = "''game''" and tr = ?tr and lims = ?L
      and d = "Some ?R" and ?t0.0 = 18000000 and ?t1.0 = 18000000 and fetchJson = ?F
      and servers = "[?W]"]
  note six = kill_threshold_by_nest [where n = 6 and u = "''game''" and tr = ?tr and lims = ?L
      and d = "Some ?R" and ?t0.0 = 10800000 and ?t1.0 = 10800000 and fetchJson = ?F
      and servers = "[?W]"]
  note plain = kill_threshold_by_nest [where n = 5 and u = "''game''" and tr = ?tr and lims = ?L
      and d = "Some ?R" and ?t0.0 = 10800000 and ?t1.0 = 10800000 and fetchJson = ?F
      and servers = "[?W]"]
  note cycle = kill_threshold_by_nest [where n = 5 and u = "''web''" and tr = ?both and lims = ?L
      and d = "Some ?R" and ?t0.0 = 10800000 and ?t1.0 = 10800000 and fetchJson = ?F
      and servers = "[?W]" and observe = ?obs and pre = "[]" and s = ?W and post = "[]"]
  note idle = kill_threshold_by_nest [where n = 1 and u = "''game''" and tr = Map.empty
      and lims = ?L and d = "Some ?R" and ?t0.0 = 10800000 and ?t1.0 = 10800000
      and fetchJson = ?G and servers = "[]" and observe = ?obs]
  from at3 have k1: "customKillThresholdSeconds 1 = 18000" by simp
  from six have k6: "customKillThresholdSeconds 6 = 18000" by simp
  from plain have k5: "customKillThresholdSeconds 5 = 10800" by simp
  from at3 have "KillServer ''game'' \<in> set (snd (getServerResources ?tr ''game'' ?L 1 (Some ?R) 10800000 10800000)) \<longleftrightarrow>
      (\<exists>res. Some ?R = Some res \<and> over_limit ?L res \<and>
        elapsedTime 10800000 (tracked ?tr ''game'' 10800000) \<ge> customKillThresholdSeconds 1)"
    by blast
  then have no3: "KillServer ''game'' \<notin> set (snd (getServerResources ?tr ''game'' ?L 1 (Some ?R) 10800000 10800000))"
    by (simp add: k1 el3)
  from at5 have "KillServer ''game'' \<in> set (snd (getServerResources ?tr ''game'' ?L 1 (Some ?R) 18000000 18000000)) \<longleftrightarrow>
      (\<exists>res. Some ?R = Some res \<and> over_limit ?L res \<and>
        elapsedTime 18000000 (tracked ?tr ''game'' 18000000) \<ge> customKillThresholdSeconds 1)"
    by blast
  then have yes5: "KillServer ''game'' \<in> set (snd (getServerResources ?tr ''game'' ?L 1 (Some ?R) 18000000 18000000))"
    by (simp add: k1 el5 over)
  from plain have "KillServer ''game'' \<in> set (snd (getServerResources ?tr ''game'' ?L 5 (Some ?R) 10800000 10800000)) \<longleftrightarrow>
      (\<exists>res. Some ?R = Some res \<and> over_limit ?L res \<and>
        elapsedTime 10800000 (tracked ?tr ''game'' 10800000) \<ge> customKillThresholdSeconds 5)"
    by blast
  then have yes3: "KillServer ''game'' \<in> set (snd (getServerResources ?tr ''game'' ?L 5 (Some ?R) 10800000 10800000))"
    by (simp add: k5 el3 over)
  from plain listing have "\<forall>s \<in> set [?W]. nest s \<noteq> 1 \<and> nest s \<noteq> 6 \<and>
      customKillThresholdSeconds (nest s) = 10800"
    by blast
  then have delivered: "customKillThresholdSeconds (nest ?W) = 10800"
    by simp
  have step: "getServerResources ?both ''web'' ?L 5 (Some ?R) 10800000 10800000 =
      (?tr, [KillServer ''web'', LogToDiscord ''web''])"
    by (simp add: eval_defs fun_upd_twist)
  from listing have "getAllServersFromAppAPI ?F = Some ([] @ ?W # [])"
    by simp
  with cycle have "let tr1 = fst (evaluate_all ?both ?obs []);
             data = fst (?obs (uuid ?W));
             now_created = fst (snd (?obs (uuid ?W)));
             now_checked = snd (snd (?obs (uuid ?W)));
             step = getServerResources tr1 (uuid ?W) (limits ?W) (nest ?W) data now_created now_checked
         in poll_cycle ?both ?F ?obs =
              Some (fst (evaluate_all (fst step) ?obs []),
                    snd (evaluate_all ?both ?obs []) @ snd step @
                    snd (evaluate_all (fst step) ?obs []))
            \<and> nest ?W \<noteq> 1 \<and> nest ?W \<noteq> 6
            \<and> (KillServer (uuid ?W) \<in> set (snd step) \<longleftrightarrow>
                 (\<exists>res. data = Some res \<and> over_limit (limits ?W) res \<and>
                    elapsedTime now_checked (tracked tr1 (uuid ?W) now_created) \<ge> 10800))"
    by blast
  then have killed: "poll_cycle ?both ?F ?obs = Some (?tr, [KillServer ''web'', LogToDiscord ''web''])"
    by (simp add: Let_def step)
  from idle empty_listing have skipped: "poll_cycle Map.empty ?G ?obs = Some (Map.empty, [])"
    by blast
  from k1 k6 k5 no3 yes5 yes3 listing delivered killed skipped show ?thesis by blast
qed

end
